theory Spec2Isabelle
  imports Complex_Main "HOL-Library.Multiset"
begin

section \<open>Providers, errors and the outside world\<close>

text \<open>
  The four backends of \<^verbatim>\<open>llmProviders\<close> (shared schema). The provider's name is the
  string the TypeScript code interpolates into its messages.
\<close>

datatype LLMProvider = openai | claude | deepseek | grok

fun provider_name :: "LLMProvider \<Rightarrow> string" where
  "provider_name openai = ''openai''"
| "provider_name claude = ''claude''"
| "provider_name deepseek = ''deepseek''"
| "provider_name grok = ''grok''"

text \<open>
  A JavaScript \<^verbatim>\<open>Error\<close> is represented by its message. A fallible computation returns
  \<open>Inl message\<close> where the source throws and \<open>Inr value\<close> where it returns.
\<close>

type_synonym error = string

subsection \<open>Circuit breaker state (error-handler)\<close>

datatype breaker_state = CLOSED | OPEN | HALF_OPEN

record CircuitBreakerState =
  failures :: nat
  lastFailureTime :: "int option"
  state :: breaker_state

definition failureThreshold :: nat where
  "failureThreshold = 3"

definition cooldownMs :: int where
  "cooldownMs = 30000"

definition maxRetries :: nat where
  "maxRetries = 3"

definition baseDelayMs :: nat where
  "baseDelayMs = 1000"

definition maxDelayMs :: nat where
  "maxDelayMs = 10000"

subsection \<open>Rows of the persistence layer and of the semantic memory\<close>

text \<open>
  A message object. \<open>createdAt\<close> is absent, a \<^verbatim>\<open>Date\<close> for an instant (as in the rows the
  database returns), or the ISO text of an instant, a string (\<^verbatim>\<open>new Date().toISOString()\<close>);
  \<open>suggestionId\<close> and \<open>isAnnouncement\<close> are the extra keys the companion puts on its objects.
\<close>

datatype timestamp = Date int | IsoString int

record Message =
  msg_id :: string
  discussionId :: string
  content :: string
  sender :: string
  llmProvider :: "string option"
  createdAt :: "timestamp option"
  suggestionId :: "string option"
  isAnnouncement :: bool

datatype phase = plasma | gas | liquid | solid

record Discussion =
  currentPhase :: phase
  breathCount :: "int option"
  detectedPatterns :: "string list"

record CompanionConfig =
  enabled :: bool
  autoSuggest :: bool

record UserSettings =
  apiKeys :: "LLMProvider \<Rightarrow> string option"
  companionConfig :: "CompanionConfig option"

record Metadata =
  md_llm :: string
  md_phase :: phase
  md_breathCount :: int
  md_patterns :: "string list"
  md_timestamp :: int

record MemoryItem =
  mem_id :: string
  mem_content :: string
  embedding :: "real list"
  mem_metadata :: Metadata

record AgentTemplate =
  tpl_name :: string
  tpl_focus :: string
  tpl_system_prompt :: string

record Suggestion =
  sug_id :: string
  sug_discussionId :: string
  sug_content :: string
  agent_template :: AgentTemplate

subsection \<open>The environment: what the external services answer\<close>

text \<open>
  Everything the code does not decide itself is an oracle indexed by \<open>tick\<close>, the number
  of external calls made so far, so that every sequence of answers can be expressed:
  the text or error message a provider client produces and how long the request takes,
  how late a timer fires, whether a database statement throws, what the embedding
  endpoint answers for an input, and which discussions other requests delete
  (\<^verbatim>\<open>DELETE /api/discussions/:id\<close>) before a statement of this request is executed.
  \<open>toLowerCase\<close> and \<open>toUpperCase\<close> are the Unicode case mappings of the JavaScript engine.
\<close>

record env =
  llm :: "LLMProvider \<Rightarrow> nat \<Rightarrow> error + string"
  latency :: "LLMProvider \<Rightarrow> nat \<Rightarrow> nat"
  lag :: "nat \<Rightarrow> nat"
  db_error :: "nat \<Rightarrow> error option"
  embed :: "string \<Rightarrow> string \<Rightarrow> nat \<Rightarrow> error + real list"
  db_deleted :: "nat \<Rightarrow> string list"
  toLowerCase :: "string \<Rightarrow> string"
  toUpperCase :: "string \<Rightarrow> string"

text \<open>
  The mutable state: the module-level \<^verbatim>\<open>circuitBreakers\<close> map and \<^verbatim>\<open>memories\<close> array,
  the clock read by \<^verbatim>\<open>new Date()\<close> (milliseconds), and the database tables. The fields
  \<open>tick\<close>, \<open>calls\<close>, \<open>sleeps\<close>, \<open>hops\<close> and \<open>embedded\<close> are instrumentation: they log the
  provider requests issued, the delays slept, the providers handed to
  \<^verbatim>\<open>handleLLMResponse\<close> and the texts sent to the embedding endpoint.
\<close>

record world =
  circuitBreakers :: "LLMProvider \<rightharpoonup> CircuitBreakerState"
  now :: int
  tick :: nat
  calls :: "LLMProvider list"
  sleeps :: "nat list"
  hops :: "LLMProvider list"
  memories :: "MemoryItem list"
  embedded :: "string list"
  db_messages :: "Message list"
  db_discussions :: "string \<rightharpoonup> Discussion"
  db_settings :: "UserSettings option"
  db_suggestions :: "Suggestion list option"

section \<open>Circuit breaker operations\<close>

definition new_breaker :: CircuitBreakerState where
  "new_breaker = \<lparr>failures = 0, lastFailureTime = None, state = CLOSED\<rparr>"

text \<open>\<^verbatim>\<open>getCircuitBreaker\<close>: the entry is created on first use.\<close>

definition getCircuitBreaker :: "LLMProvider \<Rightarrow> world \<Rightarrow> CircuitBreakerState \<times> world" where
  "getCircuitBreaker provider w =
     (case circuitBreakers w provider of
        None \<Rightarrow> (new_breaker, w\<lparr>circuitBreakers := (circuitBreakers w)(provider \<mapsto> new_breaker)\<rparr>)
      | Some breaker \<Rightarrow> (breaker, w))"

definition set_breaker :: "LLMProvider \<Rightarrow> CircuitBreakerState \<Rightarrow> world \<Rightarrow> world" where
  "set_breaker provider breaker w = w\<lparr>circuitBreakers := (circuitBreakers w)(provider \<mapsto> breaker)\<rparr>"

text \<open>
  \<^verbatim>\<open>canAttemptRequest\<close>. A missing \<^verbatim>\<open>lastFailureTime\<close> makes \<^verbatim>\<open>timeSinceFailure\<close>
  \<^verbatim>\<open>Infinity\<close>, which exceeds the cooldown.
\<close>

definition canAttemptRequest :: "LLMProvider \<Rightarrow> world \<Rightarrow> bool \<times> world" where
  "canAttemptRequest provider w =
     (let (breaker, w1) = getCircuitBreaker provider w in
      if state breaker = CLOSED then (True, w1)
      else if state breaker = OPEN then
        (if (case lastFailureTime breaker of
               None \<Rightarrow> True
             | Some t \<Rightarrow> now w1 - t > cooldownMs)
         then (True, set_breaker provider (breaker\<lparr>state := HALF_OPEN\<rparr>) w1)
         else (False, w1))
      else if state breaker = HALF_OPEN then (True, w1)
      else (False, w1))"

definition recordSuccess :: "LLMProvider \<Rightarrow> world \<Rightarrow> world" where
  "recordSuccess provider w =
     (let (breaker, w1) = getCircuitBreaker provider w in
      set_breaker provider (breaker\<lparr>failures := 0, state := CLOSED\<rparr>) w1)"

definition recordFailure :: "LLMProvider \<Rightarrow> world \<Rightarrow> world" where
  "recordFailure provider w =
     (let (breaker, w1) = getCircuitBreaker provider w;
          breaker1 = breaker\<lparr>failures := failures breaker + 1, lastFailureTime := Some (now w1)\<rparr>
      in if failures breaker1 \<ge> failureThreshold
         then set_breaker provider (breaker1\<lparr>state := OPEN\<rparr>) w1
         else set_breaker provider breaker1 w1)"

section \<open>Retry with exponential backoff\<close>

definition calculateBackoffDelay :: "nat \<Rightarrow> nat" where
  "calculateBackoffDelay attemptNumber = min (baseDelayMs * 2 ^ attemptNumber) maxDelayMs"

text \<open>\<^verbatim>\<open>sleep\<close>: the timer fires after at least \<open>ms\<close> milliseconds.\<close>

definition sleep :: "env \<Rightarrow> nat \<Rightarrow> world \<Rightarrow> world" where
  "sleep ev ms w =
     w\<lparr>now := now w + int ms + int (lag ev (tick w)), tick := tick w + 1, sleeps := sleeps w @ [ms]\<rparr>"

text \<open>
  The operation \<^verbatim>\<open>fn\<close> handed to \<^verbatim>\<open>retryWithBackoff\<close> by \<^verbatim>\<open>generateLLMResponse\<close>: one
  request to the provider's client, which returns text or throws.
\<close>

definition call_provider :: "env \<Rightarrow> LLMProvider \<Rightarrow> world \<Rightarrow> (error + string) \<times> world" where
  "call_provider ev provider w =
     (llm ev provider (tick w),
      w\<lparr>now := now w + int (latency ev provider (tick w)), tick := tick w + 1,
        calls := calls w @ [provider]\<rparr>)"

definition circuit_open_message :: "LLMProvider \<Rightarrow> error" where
  "circuit_open_message provider = ''Circuit breaker OPEN for '' @ provider_name provider"

text \<open>
  One pass through the \<^verbatim>\<open>try\<close> block of the loop body: the breaker check, whose
  \<^verbatim>\<open>throw\<close> is inside the \<^verbatim>\<open>try\<close>, then the operation and \<^verbatim>\<open>recordSuccess\<close>.
\<close>

definition retry_try :: "env \<Rightarrow> LLMProvider \<Rightarrow> world \<Rightarrow> (error + string) \<times> world" where
  "retry_try ev provider w =
     (let (ok, w1) = canAttemptRequest provider w in
      if \<not> ok then (Inl (circuit_open_message provider), w1)
      else (case call_provider ev provider w1 of
              (Inr result, w2) \<Rightarrow> (Inr result, recordSuccess provider w2)
            | (Inl err, w2) \<Rightarrow> (Inl err, w2)))"

text \<open>
  The \<^verbatim>\<open>catch\<close> block: every error of the \<^verbatim>\<open>try\<close> block, the breaker's included, is
  recorded as a failure and followed by the backoff sleep while attempts remain.
\<close>

definition retry_catch :: "env \<Rightarrow> LLMProvider \<Rightarrow> nat \<Rightarrow> world \<Rightarrow> world" where
  "retry_catch ev provider attempt w =
     (let w1 = recordFailure provider w in
      if attempt < maxRetries then sleep ev (calculateBackoffDelay attempt) w1 else w1)"

function retry_loop ::
  "env \<Rightarrow> LLMProvider \<Rightarrow> nat \<Rightarrow> error option \<Rightarrow> world \<Rightarrow> (error + string) \<times> world" where
  "retry_loop ev provider attempt lastError w =
     (if attempt \<le> maxRetries then
        (case retry_try ev provider w of
           (Inr result, w1) \<Rightarrow> (Inr result, w1)
         | (Inl err, w1) \<Rightarrow>
             retry_loop ev provider (attempt + 1) (Some err) (retry_catch ev provider attempt w1))
      else
        (case lastError of
           Some err \<Rightarrow> (Inl err, w)
         | None \<Rightarrow> (Inl (''All retries exhausted for '' @ provider_name provider), w)))"
  by pat_completeness auto
termination
  by (relation "measure (\<lambda>(ev, provider, attempt, lastError, w). Suc maxRetries - attempt)") auto

definition retryWithBackoff :: "env \<Rightarrow> LLMProvider \<Rightarrow> world \<Rightarrow> (error + string) \<times> world" where
  "retryWithBackoff ev provider w = retry_loop ev provider 0 None w"

declare retry_loop.simps [simp del]

section \<open>Fallback routing\<close>

text \<open>
  \<^verbatim>\<open>FALLBACK_HIERARCHY\<close> and \<^verbatim>\<open>getFallbackProvider\<close>: the first provider of the failed
  provider's list that is in \<^verbatim>\<open>availableProviders\<close> and whose breaker admits a request.
  The breaker is asked only for providers that are available (\<^verbatim>\<open>&&\<close> short-circuits), and
  asking may move it to \<open>HALF_OPEN\<close>.
\<close>

fun FALLBACK_HIERARCHY :: "LLMProvider \<Rightarrow> LLMProvider list" where
  "FALLBACK_HIERARCHY openai = [claude, deepseek, grok]"
| "FALLBACK_HIERARCHY claude = [openai, deepseek, grok]"
| "FALLBACK_HIERARCHY deepseek = [openai, claude, grok]"
| "FALLBACK_HIERARCHY grok = [openai, claude, deepseek]"

fun first_fallback :: "LLMProvider list \<Rightarrow> LLMProvider list \<Rightarrow> world \<Rightarrow> LLMProvider option \<times> world" where
  "first_fallback [] availableProviders w = (None, w)"
| "first_fallback (fallback # rest) availableProviders w =
     (if fallback \<in> set availableProviders then
        (case canAttemptRequest fallback w of
           (True, w1) \<Rightarrow> (Some fallback, w1)
         | (False, w1) \<Rightarrow> first_fallback rest availableProviders w1)
      else first_fallback rest availableProviders w)"

definition getFallbackProvider ::
  "LLMProvider \<Rightarrow> LLMProvider list \<Rightarrow> world \<Rightarrow> LLMProvider option \<times> world" where
  "getFallbackProvider failedProvider availableProviders w =
     first_fallback (FALLBACK_HIERARCHY failedProvider) availableProviders w"

section \<open>The provider router and the fan-out of the message route\<close>

text \<open>
  \<^verbatim>\<open>generateLLMResponse\<close> (llm-router): the breaker is checked before the retry loop is
  entered; the \<^verbatim>\<open>catch\<close> around the loop logs the error and throws it again. The prompt
  and the API key go to the provider's client, whose answer the environment gives.
\<close>

definition generateLLMResponse :: "env \<Rightarrow> LLMProvider \<Rightarrow> world \<Rightarrow> (error + string) \<times> world" where
  "generateLLMResponse ev provider w =
     (case canAttemptRequest provider w of
        (False, w1) \<Rightarrow>
          (Inl (circuit_open_message provider @ '' - service temporarily unavailable''), w1)
      | (True, w1) \<Rightarrow> retryWithBackoff ev provider w1)"

text \<open>Decimal digits of a number, for generated identifiers and interpolated numbers.\<close>

function show_nat :: "nat \<Rightarrow> string" where
  "show_nat n =
     (if n < 10 then [char_of (48 + n)] else show_nat (n div 10) @ [char_of (48 + n mod 10)])"
  by pat_completeness auto
termination
  by (relation "measure id") auto

declare show_nat.simps [simp del]

text \<open>
  \<^verbatim>\<open>storage.createMessage\<close>: \<^verbatim>\<open>db.insert(messages).values(insertMessage).returning()\<close>.
  The query builder encodes the value given for the timestamp column \<^verbatim>\<open>created_at\<close> with
  \<^verbatim>\<open>value.toISOString()\<close>, so a value that is a string throws a \<^verbatim>\<open>TypeError\<close> before any
  statement is sent. Otherwise the statement throws when the environment says so, or
  stores and returns the row (\<open>stored_row\<close>): the database generates the row id when the
  insert gives none and takes the current time when it gives no \<^verbatim>\<open>createdAt\<close>; keys that
  are not columns are ignored.
\<close>

definition stored_row :: "Message \<Rightarrow> nat \<Rightarrow> int \<Rightarrow> Message" where
  "stored_row insertMessage n time =
     insertMessage
       \<lparr>msg_id := (if msg_id insertMessage = [] then ''row-'' @ show_nat n else msg_id insertMessage),
        createdAt := (if createdAt insertMessage = None then Some (Date time) else createdAt insertMessage),
        suggestionId := None, isAnnouncement := False\<rparr>"

definition createMessage :: "env \<Rightarrow> Message \<Rightarrow> world \<Rightarrow> (error + Message) \<times> world" where
  "createMessage ev insertMessage w =
     (case createdAt insertMessage of
        Some (IsoString t) \<Rightarrow> (Inl ''value.toISOString is not a function'', w)
      | given \<Rightarrow>
          (case db_error ev (tick w) of
             Some err \<Rightarrow> (Inl err, w\<lparr>tick := tick w + 1\<rparr>)
           | None \<Rightarrow>
               (let message = stored_row insertMessage (tick w) (now w)
                in (Inr message, w\<lparr>tick := tick w + 1, db_messages := db_messages w @ [message]\<rparr>))))"

text \<open>The warning sign U+26A0 U+FE0F that starts every degraded message, in UTF-8.\<close>

definition warn :: string where
  "warn = [CHR 0xE2, CHR 0x9A, CHR 0xA0, CHR 0xEF, CHR 0xB8, CHR 0x8F]"

text \<open>
  \<^verbatim>\<open>handleLLMResponse\<close> (routes). \<open>handle_try\<close> is its \<^verbatim>\<open>try\<close> block: the provider's
  answer is generated and stored. The \<^verbatim>\<open>catch\<close> block asks for a fallback provider and
  calls \<^verbatim>\<open>handleLLMResponse\<close> for it with that provider filtered out of
  \<^verbatim>\<open>availableProviders\<close>; the answer of the recursive call is marked and returned, and
  when there is no fallback or the recursive call throws, the degraded message is stored
  and returned. Storing the degraded message is outside every \<^verbatim>\<open>try\<close>: its error leaves
  the function.
\<close>

definition handle_try :: "env \<Rightarrow> string \<Rightarrow> LLMProvider \<Rightarrow> string \<Rightarrow> world \<Rightarrow> (error + Message) \<times> world" where
  "handle_try ev did provider senderName w =
     (case generateLLMResponse ev provider w of
        (Inl err, w1) \<Rightarrow> (Inl err, w1)
      | (Inr response, w1) \<Rightarrow>
          createMessage ev \<lparr>msg_id = [], discussionId = did, content = response, sender = senderName,
            llmProvider = Some (provider_name provider), createdAt = None, suggestionId = None, isAnnouncement = False\<rparr> w1)"

definition unavailable_text :: "LLMProvider \<Rightarrow> error \<Rightarrow> string" where
  "unavailable_text provider err =
     warn @ '' '' @ provider_name provider @ '' response unavailable: '' @ err"

definition degradedMessage :: "string \<Rightarrow> LLMProvider \<Rightarrow> string \<Rightarrow> error \<Rightarrow> Message" where
  "degradedMessage did provider senderName err =
     \<lparr>msg_id = [], discussionId = did,
      content = unavailable_text provider err,
      sender = senderName, llmProvider = Some (provider_name provider), createdAt = None, suggestionId = None, isAnnouncement = False\<rparr>"

definition fallback_note :: "LLMProvider \<Rightarrow> LLMProvider \<Rightarrow> string" where
  "fallback_note provider fallbackProvider =
     warn @ '' '' @ provider_name provider @ '' unavailable. Response from ''
       @ provider_name fallbackProvider @ '':'' @ [CHR 0x0A, CHR 0x0A]"

definition mark_fallback :: "LLMProvider \<Rightarrow> LLMProvider \<Rightarrow> Message \<Rightarrow> Message" where
  "mark_fallback provider fallbackProvider fallbackResponse =
     fallbackResponse\<lparr>content := fallback_note provider fallbackProvider @ content fallbackResponse\<rparr>"

function handleLLMResponse ::
  "env \<Rightarrow> string \<Rightarrow> LLMProvider \<Rightarrow> string \<Rightarrow> LLMProvider list \<Rightarrow> world \<Rightarrow> (error + Message) \<times> world" where
  "handleLLMResponse ev did provider senderName availableProviders w =
     (case handle_try ev did provider senderName (w\<lparr>hops := hops w @ [provider]\<rparr>) of
        (Inr savedMessage, w1) \<Rightarrow> (Inr savedMessage, w1)
      | (Inl err, w1) \<Rightarrow>
          (case getFallbackProvider provider availableProviders w1 of
             (None, w2) \<Rightarrow> createMessage ev (degradedMessage did provider senderName err) w2
           | (Some fallbackProvider, w2) \<Rightarrow>
               (case handleLLMResponse ev did fallbackProvider senderName
                       (filter (\<lambda>p. p \<noteq> fallbackProvider) availableProviders) w2 of
                  (Inr fallbackResponse, w3) \<Rightarrow>
                    (Inr (mark_fallback provider fallbackProvider fallbackResponse), w3)
                | (Inl fallbackError, w3) \<Rightarrow>
                    createMessage ev (degradedMessage did provider senderName err) w3)))"
  by pat_completeness auto
termination
proof (relation "measure (\<lambda>(ev, did, provider, senderName, availableProviders, w). length availableProviders)",
    goal_cases)
  case 1
  show ?case by simp
next
  case (2 ev did provider senderName availableProviders w x y a xa ya x2)
  have mem: "fb \<in> set avail" if "first_fallback fs avail v = (Some fb, v')" for fs avail v fb v'
    using that
    by (induction fs avail v rule: first_fallback.induct) (auto split: if_splits prod.splits bool.splits)
  from 2 have "first_fallback (FALLBACK_HIERARCHY provider) availableProviders y = (Some x2, ya)"
    by (simp add: getFallbackProvider_def)
  then have "x2 \<in> set availableProviders" by (rule mem)
  then have "length (filter (\<lambda>p. p \<noteq> x2) availableProviders) < length availableProviders"
    by (induction availableProviders) (auto simp: less_Suc_eq_le)
  then show ?case by simp
qed

declare handleLLMResponse.simps [simp del]






definition fulfilled :: "(error + Message) list \<Rightarrow> Message list" where
  "fulfilled results = List.map_filter (\<lambda>r. case r of Inl reason \<Rightarrow> None | Inr v \<Rightarrow> Some v) results"


section \<open>JavaScript numbers and cosine similarity\<close>

text \<open>
  A JavaScript number is a finite value, an infinity or \<^verbatim>\<open>NaN\<close>. Finite values are real
  numbers here: rounding, overflow and underflow of the 64-bit format are not modelled, and
  the sign of zero is dropped. The operations follow IEEE 754 on the special values:
  \<^verbatim>\<open>NaN\<close> propagates, \<^verbatim>\<open>0/0\<close> and \<^verbatim>\<open>Infinity - Infinity\<close> are \<^verbatim>\<open>NaN\<close>, every comparison with
  \<^verbatim>\<open>NaN\<close> is false.
\<close>

datatype jsnum = Num real | PosInf | NegInf | NaN

fun js_add :: "jsnum \<Rightarrow> jsnum \<Rightarrow> jsnum" where
  "js_add (Num x) (Num y) = Num (x + y)"
| "js_add NaN _ = NaN"
| "js_add _ NaN = NaN"
| "js_add PosInf NegInf = NaN"
| "js_add NegInf PosInf = NaN"
| "js_add PosInf _ = PosInf"
| "js_add _ PosInf = PosInf"
| "js_add NegInf _ = NegInf"
| "js_add _ NegInf = NegInf"

fun js_neg :: "jsnum \<Rightarrow> jsnum" where
  "js_neg (Num x) = Num (- x)"
| "js_neg PosInf = NegInf"
| "js_neg NegInf = PosInf"
| "js_neg NaN = NaN"

definition js_sub :: "jsnum \<Rightarrow> jsnum \<Rightarrow> jsnum" where
  "js_sub x y = js_add x (js_neg y)"

fun js_mul :: "jsnum \<Rightarrow> jsnum \<Rightarrow> jsnum" where
  "js_mul (Num x) (Num y) = Num (x * y)"
| "js_mul NaN _ = NaN"
| "js_mul _ NaN = NaN"
| "js_mul (Num x) PosInf = (if x = 0 then NaN else if 0 < x then PosInf else NegInf)"
| "js_mul (Num x) NegInf = (if x = 0 then NaN else if 0 < x then NegInf else PosInf)"
| "js_mul PosInf (Num y) = (if y = 0 then NaN else if 0 < y then PosInf else NegInf)"
| "js_mul NegInf (Num y) = (if y = 0 then NaN else if 0 < y then NegInf else PosInf)"
| "js_mul PosInf PosInf = PosInf"
| "js_mul NegInf NegInf = PosInf"
| "js_mul PosInf NegInf = NegInf"
| "js_mul NegInf PosInf = NegInf"

fun js_div :: "jsnum \<Rightarrow> jsnum \<Rightarrow> jsnum" where
  "js_div (Num x) (Num y) =
     (if y \<noteq> 0 then Num (x / y)
      else if x = 0 then NaN else if 0 < x then PosInf else NegInf)"
| "js_div NaN _ = NaN"
| "js_div _ NaN = NaN"
| "js_div (Num x) _ = Num 0"
| "js_div PosInf (Num y) = (if 0 \<le> y then PosInf else NegInf)"
| "js_div NegInf (Num y) = (if 0 \<le> y then NegInf else PosInf)"
| "js_div _ _ = NaN"

fun js_ge :: "jsnum \<Rightarrow> jsnum \<Rightarrow> bool" where
  "js_ge (Num x) (Num y) = (y \<le> x)"
| "js_ge NaN _ = False"
| "js_ge _ NaN = False"
| "js_ge PosInf _ = True"
| "js_ge _ NegInf = True"
| "js_ge _ _ = False"

fun js_positive :: "jsnum \<Rightarrow> bool" where
  "js_positive (Num x) = (0 < x)"
| "js_positive PosInf = True"
| "js_positive _ = False"

text \<open>
  \<^verbatim>\<open>b[i]\<close> on an array of numbers: beyond the end it is \<^verbatim>\<open>undefined\<close>, which arithmetic
  converts to \<^verbatim>\<open>NaN\<close>; it never throws.
\<close>

definition js_index :: "real list \<Rightarrow> nat \<Rightarrow> jsnum" where
  "js_index b i = (if i < length b then Num (b ! i) else NaN)"

text \<open>
  \<^verbatim>\<open>cosineSimilarity\<close> (semantic-memory): three \<^verbatim>\<open>reduce\<close> calls, the first over the
  elements of \<open>a\<close> with their indices, and a division. The function has no \<^verbatim>\<open>throw\<close> and
  no check of lengths or norms. The vectors hold finite numbers.
\<close>

definition cosineSimilarity :: "real list \<Rightarrow> real list \<Rightarrow> jsnum" where
  "cosineSimilarity a b =
     (let dotProduct = foldl (\<lambda>sum (val, i). js_add sum (js_mul (Num val) (js_index b i)))
                         (Num 0) (zip a [0..<length a]);
          magnitudeA = sqrt (foldl (\<lambda>sum val. sum + val * val) 0 a);
          magnitudeB = sqrt (foldl (\<lambda>sum val. sum + val * val) 0 b)
      in js_div dotProduct (Num (magnitudeA * magnitudeB)))"

section \<open>Semantic memory\<close>

record MemoryContext =
  ctx_currentPhase :: phase
  ctx_breathNumber :: int
  ctx_detectedPatterns :: "string list"

record PatternResult =
  res_content :: string
  similarity :: jsnum
  res_metadata :: Metadata

text \<open>Decimal rendering of an integer such as \<^verbatim>\<open>Date.now()\<close>.\<close>

definition show_int :: "int \<Rightarrow> string" where
  "show_int i = (if i < 0 then ''-'' @ show_nat (nat (- i)) else show_nat (nat i))"

text \<open>
  One request to the embedding endpoint (\<^verbatim>\<open>openai.embeddings.create\<close> and the read of
  \<^verbatim>\<open>data[0].embedding\<close>), which yields a vector or throws.
\<close>

definition embed_request :: "env \<Rightarrow> string \<Rightarrow> string \<Rightarrow> world \<Rightarrow> (error + real list) \<times> world" where
  "embed_request ev apiKey input w =
     (embed ev apiKey input (tick w), w\<lparr>tick := tick w + 1, embedded := embedded w @ [input]\<rparr>)"

text \<open>
  \<^verbatim>\<open>storeMemory\<close>: \<open>storeMemory_try\<close> is the \<^verbatim>\<open>try\<close> block; the \<^verbatim>\<open>catch\<close> block logs the
  error and the function returns normally.
\<close>

definition storeMemory_try ::
  "env \<Rightarrow> string \<Rightarrow> string \<Rightarrow> MemoryContext \<Rightarrow> string \<Rightarrow> world \<Rightarrow> (error + unit) \<times> world" where
  "storeMemory_try ev llmId message ctx apiKey w =
     (case embed_request ev apiKey message w of
        (Inl err, w1) \<Rightarrow> (Inl err, w1)
      | (Inr vector, w1) \<Rightarrow>
          (let memory = \<lparr>mem_id = llmId @ ''-'' @ show_int (now w1), mem_content = message,
                          embedding = vector,
                          mem_metadata = \<lparr>md_llm = llmId, md_phase = ctx_currentPhase ctx,
                            md_breathCount = ctx_breathNumber ctx,
                            md_patterns = ctx_detectedPatterns ctx, md_timestamp = now w1\<rparr>\<rparr>
           in (Inr (), w1\<lparr>memories := memories w1 @ [memory]\<rparr>)))"

definition storeMemory ::
  "env \<Rightarrow> string \<Rightarrow> string \<Rightarrow> MemoryContext \<Rightarrow> string \<Rightarrow> world \<Rightarrow> (error + unit) \<times> world" where
  "storeMemory ev llmId message ctx apiKey w =
     (case storeMemory_try ev llmId message ctx apiKey w of
        (Inl err, w1) \<Rightarrow> (Inr (), w1)
      | (Inr u, w1) \<Rightarrow> (Inr u, w1))"

text \<open>
  \<^verbatim>\<open>Array.prototype.sort\<close> with a comparator is stable; for a consistent comparator its
  result is the one a stable insertion sort gives. An element moves behind another only
  when the comparator's result is positive (\<^verbatim>\<open>NaN\<close> counts as zero).
\<close>

fun js_insert :: "('a \<Rightarrow> 'a \<Rightarrow> jsnum) \<Rightarrow> 'a \<Rightarrow> 'a list \<Rightarrow> 'a list" where
  "js_insert cmp x [] = [x]"
| "js_insert cmp x (y # ys) =
     (if js_positive (cmp x y) then y # js_insert cmp x ys else x # y # ys)"

definition js_sort :: "('a \<Rightarrow> 'a \<Rightarrow> jsnum) \<Rightarrow> 'a list \<Rightarrow> 'a list" where
  "js_sort cmp xs = foldr (js_insert cmp) xs []"

text \<open>\<^verbatim>\<open>xs.slice(0, end)\<close>: a negative \<open>end\<close> counts from the end of the array.\<close>

definition js_slice0 :: "'a list \<Rightarrow> int \<Rightarrow> 'a list" where
  "js_slice0 xs end =
     (if end < 0 then take (nat (int (length xs) + end)) xs else take (nat end) xs)"

text \<open>
  \<^verbatim>\<open>findPatterns\<close>: \<open>findPatterns_try\<close> is the \<^verbatim>\<open>try\<close> block, which returns at once on an
  empty memory; the \<^verbatim>\<open>catch\<close> block returns the empty array.
\<close>

definition pattern_result :: "real list \<Rightarrow> MemoryItem \<Rightarrow> PatternResult" where
  "pattern_result queryEmbedding memory =
     \<lparr>res_content = mem_content memory,
      similarity = cosineSimilarity queryEmbedding (embedding memory),
      res_metadata = mem_metadata memory\<rparr>"

definition by_similarity_desc :: "PatternResult \<Rightarrow> PatternResult \<Rightarrow> jsnum" where
  "by_similarity_desc a b = js_sub (similarity b) (similarity a)"

definition findPatterns_try ::
  "env \<Rightarrow> string \<Rightarrow> string \<Rightarrow> real \<Rightarrow> int \<Rightarrow> world \<Rightarrow> (error + PatternResult list) \<times> world" where
  "findPatterns_try ev query apiKey threshold limit w =
     (if memories w = [] then (Inr [], w)
      else
        (case embed_request ev apiKey query w of
           (Inl err, w1) \<Rightarrow> (Inl err, w1)
         | (Inr queryEmbedding, w1) \<Rightarrow>
             (let results = map (pattern_result queryEmbedding) (memories w1);
                  filteredResults =
                    js_slice0
                      (js_sort by_similarity_desc
                         (filter (\<lambda>r. js_ge (similarity r) (Num threshold)) results))
                      limit
              in (Inr filteredResults, w1))))"

definition findPatterns ::
  "env \<Rightarrow> string \<Rightarrow> string \<Rightarrow> real \<Rightarrow> int \<Rightarrow> world \<Rightarrow> (error + PatternResult list) \<times> world" where
  "findPatterns ev query apiKey threshold limit w =
     (case findPatterns_try ev query apiKey threshold limit w of
        (Inl err, w1) \<Rightarrow> (Inr [], w1)
      | (Inr found, w1) \<Rightarrow> (Inr found, w1))"

section \<open>The companion's monitor\<close>

text \<open>
  Sequencing of fallible steps: the first error ends the computation, as a rejected
  \<^verbatim>\<open>await\<close> inside a \<^verbatim>\<open>try\<close> block does.
\<close>

definition bind_try ::
  "(world \<Rightarrow> (error + 'a) \<times> world) \<Rightarrow> ('a \<Rightarrow> world \<Rightarrow> (error + 'b) \<times> world) \<Rightarrow>
   world \<Rightarrow> (error + 'b) \<times> world" where
  "bind_try m f w = (case m w of (Inl err, w1) \<Rightarrow> (Inl err, w1) | (Inr x, w1) \<Rightarrow> f x w1)"

text \<open>
  The storage methods the monitor calls (\<^verbatim>\<open>DatabaseStorage\<close>). A statement sees the
  database as the requests served in the meantime have left it: the discussions they
  deleted are gone, and their messages with them (\<^verbatim>\<open>onDelete: cascade\<close>). Each statement
  throws when the environment says so. \<^verbatim>\<open>updateDiscussion\<close> changes the row if there is
  one, and throws when the breath count does not fit the \<^verbatim>\<open>integer\<close> column;
  \<^verbatim>\<open>addCompanionSuggestion\<close> reads the companion row, and \<^verbatim>\<open>updateCompanionData\<close>
  reads it again before it updates or inserts it.
\<close>

definition concurrent_deletes :: "env \<Rightarrow> world \<Rightarrow> world" where
  "concurrent_deletes ev w =
     w\<lparr>db_discussions := (\<lambda>d. if d \<in> set (db_deleted ev (tick w)) then None else db_discussions w d),
       db_messages := filter (\<lambda>m. discussionId m \<notin> set (db_deleted ev (tick w))) (db_messages w)\<rparr>"

definition db_statement :: "env \<Rightarrow> world \<Rightarrow> (error + unit) \<times> world" where
  "db_statement ev w =
     (case db_error ev (tick w) of
        Some err \<Rightarrow> (Inl err, (concurrent_deletes ev w)\<lparr>tick := tick w + 1\<rparr>)
      | None \<Rightarrow> (Inr (), (concurrent_deletes ev w)\<lparr>tick := tick w + 1\<rparr>))"

definition int32 :: "int \<Rightarrow> bool" where
  "int32 n = (- 2147483648 \<le> n \<and> n \<le> 2147483647)"

definition getMessagesByDiscussion :: "env \<Rightarrow> string \<Rightarrow> world \<Rightarrow> (error + Message list) \<times> world" where
  "getMessagesByDiscussion ev did =
     bind_try (db_statement ev)
       (\<lambda>_ w. (Inr (filter (\<lambda>m. discussionId m = did) (db_messages w)), w))"

definition getSettings :: "env \<Rightarrow> world \<Rightarrow> (error + UserSettings option) \<times> world" where
  "getSettings ev = bind_try (db_statement ev) (\<lambda>_ w. (Inr (db_settings w), w))"

definition getDiscussion :: "env \<Rightarrow> string \<Rightarrow> world \<Rightarrow> (error + Discussion option) \<times> world" where
  "getDiscussion ev did = bind_try (db_statement ev) (\<lambda>_ w. (Inr (db_discussions w did), w))"

definition updateDiscussion ::
  "env \<Rightarrow> string \<Rightarrow> int \<Rightarrow> string list \<Rightarrow> world \<Rightarrow> (error + Discussion option) \<times> world" where
  "updateDiscussion ev did newBreathCount patterns =
     bind_try (db_statement ev)
       (\<lambda>_ w. if \<not> int32 newBreathCount then (Inl ''integer out of range'', w)
               else case db_discussions w did of
                 None \<Rightarrow> (Inr None, w)
               | Some d \<Rightarrow>
                   (let d' = d\<lparr>breathCount := Some newBreathCount, detectedPatterns := patterns\<rparr>
                    in (Inr (Some d'), w\<lparr>db_discussions := (db_discussions w)(did \<mapsto> d')\<rparr>)))"

definition getCompanionData :: "env \<Rightarrow> world \<Rightarrow> (error + Suggestion list option) \<times> world" where
  "getCompanionData ev = bind_try (db_statement ev) (\<lambda>_ w. (Inr (db_suggestions w), w))"

definition updateCompanionData :: "env \<Rightarrow> Suggestion list \<Rightarrow> world \<Rightarrow> (error + unit) \<times> world" where
  "updateCompanionData ev suggestions =
     bind_try (getCompanionData ev)
       (\<lambda>existing. bind_try (db_statement ev)
          (\<lambda>_ w. (Inr (), w\<lparr>db_suggestions := Some suggestions\<rparr>)))"

definition addCompanionSuggestion :: "env \<Rightarrow> Suggestion \<Rightarrow> world \<Rightarrow> (error + unit) \<times> world" where
  "addCompanionSuggestion ev suggestion =
     bind_try (getCompanionData ev)
       (\<lambda>companion.
          updateCompanionData ev ((case companion of None \<Rightarrow> [] | Some suggestions \<Rightarrow> suggestions) @ [suggestion]))"

text \<open>
  \<^verbatim>\<open>xs.slice(-n)\<close>, \<^verbatim>\<open>xs.join(sep)\<close>, and \<^verbatim>\<open>Array.from(new Set(xs))\<close>, which keeps the
  first occurrence of each element.
\<close>

definition slice_last :: "nat \<Rightarrow> 'a list \<Rightarrow> 'a list" where
  "slice_last n xs = drop (length xs - n) xs"

fun join :: "string \<Rightarrow> string list \<Rightarrow> string" where
  "join sep [] = []"
| "join sep [x] = x"
| "join sep (x # y # ys) = x @ sep @ join sep (y # ys)"

fun uniq :: "'a list \<Rightarrow> 'a list" where
  "uniq [] = []"
| "uniq (x # xs) = x # uniq (filter (\<lambda>y. y \<noteq> x) xs)"

text \<open>
  A text is the UTF-8 encoding of the JavaScript string, and what JavaScript defines on
  UTF-16 code units is read off the encoding. A character of one to three bytes is one
  code unit, a character of four bytes is a surrogate pair: \<open>utf16_units\<close> counts the code
  units that start at a byte, \<open>js_length\<close> is \<^verbatim>\<open>s.length\<close>, and \<open>char_bytes\<close> is the number of
  bytes of the character a byte starts. \<open>js_spaces\<close> are the characters of \<^verbatim>\<open>\s\<close>
  (U+0009 to U+000D, U+0020, U+00A0, U+1680, U+2000 to U+200A, U+2028, U+2029, U+202F,
  U+205F, U+3000 and U+FEFF), and \<open>space_bytes\<close> is the length of the one a text starts
  with, or 0.
\<close>

definition utf16_units :: "char \<Rightarrow> nat" where
  "utf16_units c =
     (let n = (of_char c :: nat)
      in if n < 128 then 1 else if n < 192 then 0 else if n < 240 then 1 else 2)"

definition js_length :: "string \<Rightarrow> nat" where
  "js_length s = sum_list (map utf16_units s)"

definition char_bytes :: "char \<Rightarrow> nat" where
  "char_bytes c =
     (let n = (of_char c :: nat)
      in if n < 192 then 1 else if n < 224 then 2 else if n < 240 then 3 else 4)"

definition js_spaces :: "string list" where
  "js_spaces =
     [[CHR 0x09], [CHR 0x0A], [CHR 0x0B], [CHR 0x0C], [CHR 0x0D], [CHR 0x20],
      [CHR 0xC2, CHR 0xA0], [CHR 0xE1, CHR 0x9A, CHR 0x80],
      [CHR 0xE2, CHR 0x80, CHR 0x80], [CHR 0xE2, CHR 0x80, CHR 0x81],
      [CHR 0xE2, CHR 0x80, CHR 0x82], [CHR 0xE2, CHR 0x80, CHR 0x83],
      [CHR 0xE2, CHR 0x80, CHR 0x84], [CHR 0xE2, CHR 0x80, CHR 0x85],
      [CHR 0xE2, CHR 0x80, CHR 0x86], [CHR 0xE2, CHR 0x80, CHR 0x87],
      [CHR 0xE2, CHR 0x80, CHR 0x88], [CHR 0xE2, CHR 0x80, CHR 0x89],
      [CHR 0xE2, CHR 0x80, CHR 0x8A], [CHR 0xE2, CHR 0x80, CHR 0xA8],
      [CHR 0xE2, CHR 0x80, CHR 0xA9], [CHR 0xE2, CHR 0x80, CHR 0xAF],
      [CHR 0xE2, CHR 0x81, CHR 0x9F], [CHR 0xE3, CHR 0x80, CHR 0x80],
      [CHR 0xEF, CHR 0xBB, CHR 0xBF]]"

definition space_bytes :: "string \<Rightarrow> nat" where
  "space_bytes s =
     (case filter (\<lambda>sp. take (length sp) s = sp) js_spaces of
        [] \<Rightarrow> 0
      | sp # _ \<Rightarrow> length sp)"

text \<open>
  \<^verbatim>\<open>s.split(/\s+/)\<close>: the pieces between the maximal runs of whitespace, the empty pieces
  at the ends included. \<open>in_run\<close> says that the character before was whitespace.
\<close>

function split_spaces :: "bool \<Rightarrow> string \<Rightarrow> string \<Rightarrow> string list" where
  "split_spaces in_run piece s =
     (if s = [] then [piece]
      else if 0 < space_bytes s then
        (if in_run then split_spaces True piece (drop (space_bytes s) s)
         else piece # split_spaces True [] (drop (space_bytes s) s))
      else split_spaces False (piece @ [hd s]) (tl s))"
  by pat_completeness auto
termination
  by (relation "measure (\<lambda>(in_run, piece, s). length s)") auto

declare split_spaces.simps [simp del]

text \<open>
  The case mappings on ASCII texts, on which \<^verbatim>\<open>toLowerCase\<close> and \<^verbatim>\<open>toUpperCase\<close> change
  the letters A to Z and a to z only.
\<close>

definition lower_char :: "char \<Rightarrow> char" where
  "lower_char c =
     (let n = (of_char c :: nat) in if 65 \<le> n \<and> n \<le> 90 then char_of (n + 32) else c)"

definition upper_char :: "char \<Rightarrow> char" where
  "upper_char c =
     (let n = (of_char c :: nat) in if 97 \<le> n \<and> n \<le> 122 then char_of (n - 32) else c)"

text \<open>
  \<^verbatim>\<open>detectTopicFromPatterns\<close>: the first pattern tag of the matches or, without tags, the
  first word of more than four code units in the lower-cased content of the first match.
  Without a first match the read of \<^verbatim>\<open>patterns[0].content\<close> throws.
\<close>

definition detectTopicFromPatterns :: "env \<Rightarrow> PatternResult list \<Rightarrow> error + string" where
  "detectTopicFromPatterns ev patterns =
     (let allPatterns = concat (map (\<lambda>p. md_patterns (res_metadata p)) patterns);
          uniquePatterns = uniq allPatterns
      in case uniquePatterns of
           t # _ \<Rightarrow> Inr t
         | [] \<Rightarrow>
             (case patterns of
                [] \<Rightarrow> Inl ''Cannot read properties of undefined (reading 'content')''
              | p # _ \<Rightarrow>
                  (case filter (\<lambda>w. js_length w > 4)
                          (split_spaces False [] (toLowerCase ev (res_content p))) of
                     [] \<Rightarrow> Inr ''this topic''
                   | w # _ \<Rightarrow> Inr w)))"

text \<open>
  \<^verbatim>\<open>Math.round\<close>, the local \<^verbatim>\<open>confidence\<close> of \<^verbatim>\<open>monitorDiscussion\<close>, and the texts it builds.
  \<open>brain\<close> is U+1F9E0 and \<open>wind\<close> is U+1F4A8, in UTF-8.
\<close>

definition js_round :: "real \<Rightarrow> int" where
  "js_round x = \<lfloor>x + 1 / 2\<rfloor>"

definition confidence :: "PatternResult list \<Rightarrow> real" where
  "confidence similar = real (length similar) / 3"

definition brain :: string where
  "brain = [CHR 0xF0, CHR 0x9F, CHR 0xA7, CHR 0xA0]"

definition wind :: string where
  "wind = [CHR 0xF0, CHR 0x9F, CHR 0x92, CHR 0xA8]"

definition suggestion_content :: "string \<Rightarrow> real \<Rightarrow> string" where
  "suggestion_content topic c =
     brain @ '' I notice you're exploring '' @ topic
       @ ''. Shall I crystallize a specialized agent? (Confidence: ''
       @ show_int (js_round (c * 100)) @ ''%)''"

text \<open>
  \<^verbatim>\<open>topic.charAt(0).toUpperCase() + topic.slice(1)\<close>: the first code unit, upper-cased,
  before the rest. The first code unit of a character of four bytes is a lone surrogate,
  which \<^verbatim>\<open>toUpperCase\<close> leaves as it is.
\<close>

definition capitalize :: "env \<Rightarrow> string \<Rightarrow> string" where
  "capitalize ev topic =
     (case topic of
        [] \<Rightarrow> []
      | c # cs \<Rightarrow>
          if utf16_units c = 2 then topic
          else toUpperCase ev (take (char_bytes c) topic) @ drop (char_bytes c) topic)"

text \<open>
  \<^verbatim>\<open>createCompanionAnnouncement('breathIncrement', ...)\<close>: the object carries
  \<^verbatim>\<open>createdAt: new Date().toISOString()\<close>, a string, and \<^verbatim>\<open>isAnnouncement: true\<close>.
\<close>

definition createCompanionAnnouncement_breathIncrement :: "string \<Rightarrow> int \<Rightarrow> int \<Rightarrow> Message" where
  "createCompanionAnnouncement_breathIncrement did newBreathCount time =
     \<lparr>msg_id = ''companion-announce-'' @ show_int time, discussionId = did,
      content = wind @ '' Breath #'' @ show_int newBreathCount
        @ '' completed. The conversation deepens.'',
      sender = ''companion'', llmProvider = Some ''companion'', createdAt = Some (IsoString time),
      suggestionId = None, isAnnouncement = True\<rparr>"

text \<open>
  The body of \<^verbatim>\<open>if (similar.length >= 2 && companionConfig.autoSuggest)\<close>:
  \<open>update_breathing\<close> reads the discussion and, if it exists, stores the incremented breath
  count and the patterns and inserts the announcement; \<open>emit_suggestion\<close> then stores the
  suggestion and returns it as a companion message.
\<close>

definition update_breathing ::
  "env \<Rightarrow> string \<Rightarrow> string \<Rightarrow> PatternResult list \<Rightarrow> world \<Rightarrow> (error + unit) \<times> world" where
  "update_breathing ev did topic similar =
     bind_try (getDiscussion ev did)
       (\<lambda>discussion.
          case discussion of
            None \<Rightarrow> (\<lambda>w. (Inr (), w))
          | Some d \<Rightarrow>
              (let newBreathCount = (case breathCount d of None \<Rightarrow> 0 | Some n \<Rightarrow> n) + 1;
                   patterns = uniq (concat (map (\<lambda>p. md_patterns (res_metadata p)) similar))
               in bind_try
                    (updateDiscussion ev did newBreathCount
                       (if length patterns > 0 then patterns else [topic]))
                    (\<lambda>_ w. bind_try
                       (createMessage ev (createCompanionAnnouncement_breathIncrement did newBreathCount (now w)))
                       (\<lambda>_ w. (Inr (), w)) w)))"

definition make_suggestion :: "env \<Rightarrow> string \<Rightarrow> string \<Rightarrow> real \<Rightarrow> int \<Rightarrow> Suggestion" where
  "make_suggestion ev did topic c time =
     \<lparr>sug_id = ''suggestion-'' @ show_int time, sug_discussionId = did,
      sug_content = suggestion_content topic c,
      agent_template =
        \<lparr>tpl_name = capitalize ev topic @ '' Expert'',
         tpl_focus = ''Specialized in '' @ topic @ '' discussions'',
         tpl_system_prompt = ''You are an expert in '' @ topic
           @ ''. Provide helpful guidance for '' @ topic @ ''-related questions.''\<rparr>\<rparr>"

definition suggestion_message :: "string \<Rightarrow> Suggestion \<Rightarrow> int \<Rightarrow> Message" where
  "suggestion_message did suggestion time =
     \<lparr>msg_id = ''companion-'' @ show_int time, discussionId = did,
      content = sug_content suggestion, sender = ''companion'',
      llmProvider = Some ''companion'', createdAt = Some (IsoString time),
      suggestionId = Some (sug_id suggestion), isAnnouncement = False\<rparr>"

definition emit_suggestion ::
  "env \<Rightarrow> string \<Rightarrow> PatternResult list \<Rightarrow> world \<Rightarrow> (error + Message option) \<times> world" where
  "emit_suggestion ev did similar =
     bind_try (\<lambda>w. (detectTopicFromPatterns ev similar, w))
       (\<lambda>topic.
          (let c = confidence similar
           in bind_try (update_breathing ev did topic similar)
                (\<lambda>_ w.
                   (let suggestion = make_suggestion ev did topic c (now w)
                    in bind_try (addCompanionSuggestion ev suggestion)
                         (\<lambda>_ w. (Inr (Some (suggestion_message did suggestion (now w))), w))
                         w))))"

text \<open>The periodic message: only when the number of analysed messages is a multiple of 8.\<close>

definition periodic_insight :: "string \<Rightarrow> Message list \<Rightarrow> world \<Rightarrow> (error + Message option) \<times> world" where
  "periodic_insight did messages w =
     (if length messages > 0 \<and> length messages mod 8 = 0 then
        (Inr (Some
           \<lparr>msg_id = ''companion-'' @ show_int (now w), discussionId = did,
            content = brain @ '' I'm monitoring this discussion ('' @ show_nat (length messages)
              @ '' messages). Semantic pattern detection is active. I'll suggest specialized agents when I detect recurring topics.'',
            sender = ''companion'', llmProvider = Some ''companion'', createdAt = Some (IsoString (now w)),
            suggestionId = None, isAnnouncement = False\<rparr>), w)
      else (Inr None, w))"

text \<open>
  \<^verbatim>\<open>SimpleCompanionService.monitorDiscussion\<close>, from the inside out: the semantic detection
  (query of the last three messages with threshold 0.8 and limit 5), the checks of the
  settings, and the \<^verbatim>\<open>try\<close> block that first loads the last ten messages. The \<^verbatim>\<open>catch\<close>
  block returns \<^verbatim>\<open>null\<close>.
\<close>

definition semantic_detection ::
  "env \<Rightarrow> string \<Rightarrow> Message list \<Rightarrow> CompanionConfig \<Rightarrow> string \<Rightarrow> world \<Rightarrow>
   (error + Message option) \<times> world" where
  "semantic_detection ev did messages config openaiKey =
     bind_try
       (findPatterns ev (join '' '' (map content (slice_last 3 messages))) openaiKey (8 / 10) 5)
       (\<lambda>similar.
          if length similar \<ge> 2 \<and> autoSuggest config
          then emit_suggestion ev did similar
          else periodic_insight did messages)"

definition monitor_configured ::
  "env \<Rightarrow> string \<Rightarrow> Message list \<Rightarrow> UserSettings option \<Rightarrow> world \<Rightarrow>
   (error + Message option) \<times> world" where
  "monitor_configured ev did messages settings =
     (case (case settings of None \<Rightarrow> None | Some s \<Rightarrow> companionConfig s) of
        None \<Rightarrow> (\<lambda>w. (Inr None, w))
      | Some config \<Rightarrow>
          if \<not> enabled config then (\<lambda>w. (Inr None, w))
          else
            (case (case settings of None \<Rightarrow> None | Some s \<Rightarrow> apiKeys s openai) of
               Some openaiKey \<Rightarrow>
                 if openaiKey \<noteq> [] \<and> length messages \<ge> 3
                 then semantic_detection ev did messages config openaiKey
                 else periodic_insight did messages
             | None \<Rightarrow> periodic_insight did messages))"

definition monitorDiscussion_try :: "env \<Rightarrow> string \<Rightarrow> world \<Rightarrow> (error + Message option) \<times> world" where
  "monitorDiscussion_try ev did =
     bind_try (getMessagesByDiscussion ev did)
       (\<lambda>recentMessages.
          (let messages = slice_last 10 recentMessages in
           if length messages < 3 then (\<lambda>w. (Inr None, w))
           else bind_try (getSettings ev) (monitor_configured ev did messages)))"

definition monitorDiscussion :: "env \<Rightarrow> string \<Rightarrow> world \<Rightarrow> (error + Message option) \<times> world" where
  "monitorDiscussion ev did w =
     (case monitorDiscussion_try ev did w of
        (Inl err, w1) \<Rightarrow> (Inr None, w1)
      | (Inr result, w1) \<Rightarrow> (Inr result, w1))"

section \<open>Inline pattern detection of the message route\<close>

text \<open>
  The message route runs its own detection after it has stored the responses (routes,
  \<^verbatim>\<open>Check for semantic patterns every 3 USER messages\<close>): when the number of user messages
  is a positive multiple of 3 it queries the last three of them and, for two or more matches,
  stores the breath count of the discussion it loaded at the start of the request, plus
  one. It returns nothing; every error is logged by the enclosing \<^verbatim>\<open>catch\<close>.
\<close>

definition inline_topics :: "PatternResult list \<Rightarrow> string list" where
  "inline_topics patterns =
     filter (\<lambda>t. t \<noteq> [])
       (map (\<lambda>p. let joined = join '', '' (md_patterns (res_metadata p))
                 in if joined \<noteq> [] then joined else ''pattern'') patterns)"

definition inline_pattern_detection_try ::
  "env \<Rightarrow> string \<Rightarrow> Discussion \<Rightarrow> string \<Rightarrow> world \<Rightarrow> (error + unit) \<times> world" where
  "inline_pattern_detection_try ev did discussion openaiKey =
     bind_try (getMessagesByDiscussion ev did)
       (\<lambda>allMessages.
          (let userMessages = filter (\<lambda>m. sender m = ''user'') allMessages in
           if length userMessages \<ge> 3 \<and> length userMessages mod 3 = 0 then
             bind_try
               (findPatterns ev (join '' '' (map content (slice_last 3 userMessages)))
                  openaiKey (8 / 10) 5)
               (\<lambda>patterns.
                  if length patterns \<ge> 2 then
                    (let newBreathCount = (case breathCount discussion of None \<Rightarrow> 0 | Some n \<Rightarrow> n) + 1;
                         detectedPatternTopics = inline_topics patterns
                     in bind_try
                          (updateDiscussion ev did newBreathCount
                             (if length detectedPatternTopics > 0 then detectedPatternTopics
                              else [''semantic pattern detected'']))
                          (\<lambda>updatedDiscussion w.
                             case updatedDiscussion of
                               None \<Rightarrow> (Inl ''Cannot read properties of undefined'', w)
                             | Some d \<Rightarrow> (Inr (), w)))
                  else (\<lambda>w. (Inr (), w)))
           else (\<lambda>w. (Inr (), w))))"

definition inline_pattern_detection ::
  "env \<Rightarrow> string \<Rightarrow> Discussion \<Rightarrow> string \<Rightarrow> world \<Rightarrow> (error + unit) \<times> world" where
  "inline_pattern_detection ev did discussion openaiKey w =
     (case inline_pattern_detection_try ev did discussion openaiKey w of
        (Inl err, w1) \<Rightarrow> (Inr (), w1)
      | (Inr u, w1) \<Rightarrow> (Inr u, w1))"

section \<open>Vocabulary of the claims and concrete inputs\<close>

text \<open>
  A history of calls on the breaker map, with the passing of time between them:
  \<^verbatim>\<open>recordFailure\<close>, \<^verbatim>\<open>recordSuccess\<close>, \<^verbatim>\<open>canAttemptRequest\<close> (whose answer is dropped,
  its state change kept) and the clock advancing.
\<close>

datatype cb_event = Failure LLMProvider | Success LLMProvider | Check LLMProvider | Elapse nat

fun cb_step :: "cb_event \<Rightarrow> world \<Rightarrow> world" where
  "cb_step (Failure p) w = recordFailure p w"
| "cb_step (Success p) w = recordSuccess p w"
| "cb_step (Check p) w = snd (canAttemptRequest p w)"
| "cb_step (Elapse ms) w = w\<lparr>now := now w + int ms\<rparr>"

definition cb_run :: "cb_event list \<Rightarrow> world \<Rightarrow> world" where
  "cb_run tr w = foldl (\<lambda>w e. cb_step e w) w tr"

text \<open>
  The invariant behind the breaker's blocking: after \<open>n > 0\<close> failures of \<open>p\<close> without a
  success, the entry of \<open>p\<close> counts at least \<open>n\<close> failures and holds the time of the last
  one, and once the count has reached the threshold the breaker is \<open>OPEN\<close>, or \<open>HALF_OPEN\<close>
  with the cooldown already over.
\<close>

definition tripped :: "LLMProvider \<Rightarrow> nat \<Rightarrow> world \<Rightarrow> bool" where
  "tripped p n w =
     (n = 0 \<or>
      (\<exists>b T. circuitBreakers w p = Some b \<and> n \<le> failures b \<and> lastFailureTime b = Some T \<and>
         T \<le> now w \<and>
         (failureThreshold \<le> failures b \<longrightarrow>
            state b = OPEN \<or> (state b = HALF_OPEN \<and> cooldownMs < now w - T))))"

text \<open>The state of a freshly started process with an empty database.\<close>

definition world0 :: world where
  "world0 = \<lparr>circuitBreakers = Map.empty, now = 0, tick = 0, calls = [], sleeps = [], hops = [],
     memories = [], embedded = [], db_messages = [], db_discussions = Map.empty,
     db_settings = None, db_suggestions = None\<rparr>"

text \<open>An environment in which every provider request fails at once with the same error.\<close>

definition env_down :: env where
  "env_down = \<lparr>llm = (\<lambda>p k. Inl ''boom''), latency = (\<lambda>p k. 0), lag = (\<lambda>k. 0),
     db_error = (\<lambda>k. None), embed = (\<lambda>key text k. Inl ''no embedding''),
     db_deleted = (\<lambda>k. []), toLowerCase = map lower_char, toUpperCase = map upper_char\<rparr>"

text \<open>The errors the retry loop can leave in \<^verbatim>\<open>lastError\<close>.\<close>

definition good_error :: "env \<Rightarrow> LLMProvider \<Rightarrow> error \<Rightarrow> bool" where
  "good_error ev p e = (e = circuit_open_message p \<or> (\<exists>k. llm ev p k = Inl e))"






definition only_openai_key :: "LLMProvider \<Rightarrow> string option" where
  "only_openai_key p = (if p = openai then Some ''sk-1'' else None)"

definition env_slow :: env where
  "env_slow = \<lparr>llm = (\<lambda>p k. Inl ''boom''), latency = (\<lambda>p k. 20000), lag = (\<lambda>k. 0),
     db_error = (\<lambda>k. None), embed = (\<lambda>key text k. Inl ''no embedding''),
     db_deleted = (\<lambda>k. []), toLowerCase = map lower_char, toUpperCase = map upper_char\<rparr>"


text \<open>
  The spec's words for cosine similarity: the dot product of two vectors (over the indices
  they share) and the Euclidean norm.
\<close>

definition dot :: "real list \<Rightarrow> real list \<Rightarrow> real" where
  "dot a b = (\<Sum>(x, y)\<leftarrow>zip a b. x * y)"

definition vec_norm :: "real list \<Rightarrow> real" where
  "vec_norm a = sqrt (\<Sum>x\<leftarrow>a. x * x)"

text \<open>
  Concrete inputs for the semantic memory: an embedding endpoint that answers \<open>[1, 0]\<close>
  for every text, and three stored memories whose similarities to it are 0.6, 0.8 and 1.
\<close>

definition env_embed :: env where
  "env_embed = \<lparr>llm = (\<lambda>p k. Inl ''boom''), latency = (\<lambda>p k. 0), lag = (\<lambda>k. 0),
     db_error = (\<lambda>k. None), embed = (\<lambda>key text k. Inr [1, 0]),
     db_deleted = (\<lambda>k. []), toLowerCase = map lower_char, toUpperCase = map upper_char\<rparr>"


definition memory_of :: "string \<Rightarrow> real list \<Rightarrow> string list \<Rightarrow> MemoryItem" where
  "memory_of text vector tags =
     \<lparr>mem_id = ''m'', mem_content = text, embedding = vector,
      mem_metadata = \<lparr>md_llm = ''gpt4'', md_phase = plasma, md_breathCount = 1,
        md_patterns = tags, md_timestamp = 0\<rparr>\<rparr>"

definition world_three :: world where
  "world_three = world0\<lparr>memories :=
     [memory_of ''first'' [3, 4] [], memory_of ''second'' [4, 3] [], memory_of ''third'' [1, 0] []]\<rparr>"

text \<open>Descending order of similarity, and the results that reach the threshold.\<close>

definition ge_sim :: "PatternResult \<Rightarrow> PatternResult \<Rightarrow> bool" where
  "ge_sim x y = js_ge (similarity x) (similarity y)"

definition qualifying :: "real list \<Rightarrow> real \<Rightarrow> world \<Rightarrow> PatternResult list" where
  "qualifying queryEmbedding threshold w =
     filter (\<lambda>r. js_ge (similarity r) (Num threshold)) (map (pattern_result queryEmbedding) (memories w))"

text \<open>
  Concrete inputs for the monitor: a discussion with three messages and breath count 4,
  the companion enabled with an OpenAI key, and memories of which one, two or four are
  similar to the query.
\<close>

definition user_message :: "string \<Rightarrow> string \<Rightarrow> Message" where
  "user_message did text =
     \<lparr>msg_id = ''u'', discussionId = did, content = text, sender = ''user'',
      llmProvider = None, createdAt = None, suggestionId = None, isAnnouncement = False\<rparr>"

definition companion_world :: "bool \<Rightarrow> MemoryItem list \<Rightarrow> world" where
  "companion_world auto ms =
     world0\<lparr>memories := ms,
       db_messages := [user_message ''d1'' ''how do I cache'', user_message ''d1'' ''cache keys'',
                       user_message ''d1'' ''cache eviction''],
       db_discussions := [''d1'' \<mapsto> \<lparr>currentPhase = plasma, breathCount = Some 4, detectedPatterns = []\<rparr>],
       db_settings := Some \<lparr>apiKeys = only_openai_key,
                            companionConfig = Some \<lparr>enabled = True, autoSuggest = auto\<rparr>\<rparr>\<rparr>"

definition two_matches :: "MemoryItem list" where
  "two_matches = [memory_of ''first'' [3, 4] [], memory_of ''second answer about caching'' [4, 3] [],
                  memory_of ''third'' [1, 0] [''caching'']]"

definition one_match :: "MemoryItem list" where
  "one_match = [memory_of ''first'' [3, 4] [], memory_of ''third'' [1, 0] [''caching'']]"


text \<open>
  The breath count of a discussion, read as the code reads it (\<^verbatim>\<open>breathCount || 0\<close>), and
  the messages of a discussion.
\<close>

definition breath_of :: "world \<Rightarrow> string \<Rightarrow> int" where
  "breath_of w did =
     (case db_discussions w did of
        None \<Rightarrow> 0
      | Some d \<Rightarrow> (case breathCount d of None \<Rightarrow> 0 | Some n \<Rightarrow> n))"

definition discussion_messages :: "world \<Rightarrow> string \<Rightarrow> Message list" where
  "discussion_messages w did = filter (\<lambda>m. discussionId m = did) (db_messages w)"

text \<open>The user messages of a discussion, as the message route selects them.\<close>

definition user_messages :: "world \<Rightarrow> string \<Rightarrow> Message list" where
  "user_messages w did = filter (\<lambda>m. sender m = ''user'') (discussion_messages w did)"

section \<open>Properties of the circuit breaker\<close>

lemma tripped_Failure_same: "tripped p n w \<Longrightarrow> tripped p (Suc n) (recordFailure p w)"
  by (auto simp: tripped_def recordFailure_def getCircuitBreaker_def set_breaker_def new_breaker_def
      Let_def failureThreshold_def split: option.splits)

lemma breaker_other_Failure: "q \<noteq> p \<Longrightarrow> circuitBreakers (recordFailure q w) p = circuitBreakers w p"
  by (auto simp: recordFailure_def getCircuitBreaker_def set_breaker_def Let_def split: option.splits)

lemma now_Failure: "now (recordFailure q w) = now w"
  by (auto simp: recordFailure_def getCircuitBreaker_def set_breaker_def Let_def split: option.splits)

lemma breaker_other_Success: "q \<noteq> p \<Longrightarrow> circuitBreakers (recordSuccess q w) p = circuitBreakers w p"
  by (auto simp: recordSuccess_def getCircuitBreaker_def set_breaker_def Let_def split: option.splits)

lemma now_Success: "now (recordSuccess q w) = now w"
  by (auto simp: recordSuccess_def getCircuitBreaker_def set_breaker_def Let_def split: option.splits)

lemma breaker_other_Check: "q \<noteq> p \<Longrightarrow> circuitBreakers (snd (canAttemptRequest q w)) p = circuitBreakers w p"
  by (auto simp: canAttemptRequest_def getCircuitBreaker_def set_breaker_def Let_def split: option.splits)

lemma now_Check: "now (snd (canAttemptRequest q w)) = now w"
  by (auto simp: canAttemptRequest_def getCircuitBreaker_def set_breaker_def Let_def split: option.splits)

lemma tripped_Check_same: "tripped p n w \<Longrightarrow> tripped p n (snd (canAttemptRequest p w))"
  by (auto simp: tripped_def canAttemptRequest_def getCircuitBreaker_def set_breaker_def Let_def
      split: option.splits)

lemma tripped_cong: "tripped p n w \<Longrightarrow> circuitBreakers w' p = circuitBreakers w p \<Longrightarrow> now w \<le> now w' \<Longrightarrow> tripped p n w'"
  unfolding tripped_def by (elim disjE exE conjE; force)

lemma tripped_step:
  assumes "tripped p n w" and "e \<noteq> Success p"
  shows "tripped p (if e = Failure p then Suc n else n) (cb_step e w)"
proof (cases e)
  case (Failure q)
  show ?thesis
  proof (cases "q = p")
    case True with Failure assms show ?thesis by (simp add: tripped_Failure_same)
  next
    case False with Failure assms show ?thesis
      by (auto intro!: tripped_cong [OF assms(1)] simp: breaker_other_Failure now_Failure)
  qed
next
  case (Success q)
  with assms have "q \<noteq> p" by auto
  with Success assms show ?thesis
    by (auto intro!: tripped_cong [OF assms(1)] simp: breaker_other_Success now_Success)
next
  case (Check q)
  show ?thesis
  proof (cases "q = p")
    case True with Check assms show ?thesis by (simp add: tripped_Check_same)
  next
    case False with Check assms show ?thesis
      by (auto intro!: tripped_cong [OF assms(1)] simp: breaker_other_Check now_Check)
  qed
next
  case (Elapse ms)
  with assms show ?thesis by (auto intro!: tripped_cong [OF assms(1)])
qed

lemma tripped_run:
  "Success p \<notin> set tr \<Longrightarrow> tripped p (count_list tr (Failure p)) (cb_run tr w)"
proof (induction tr rule: rev_induct)
  case Nil
  show ?case by (simp add: tripped_def)
next
  case (snoc e tr)
  then have t: "tripped p (count_list tr (Failure p)) (cb_run tr w)" and ne: "e \<noteq> Success p"
    by auto
  from tripped_step [OF t ne] show ?case
    by (auto simp: cb_run_def split: if_splits)
qed

lemma tripped_blocks:
  assumes "tripped p n w" and "failureThreshold \<le> n"
  shows "\<exists>b T. circuitBreakers w p = Some b \<and> lastFailureTime b = Some T \<and>
           (now w - T \<le> cooldownMs \<longrightarrow> canAttemptRequest p w = (False, w))"
  using assms
  by (auto simp: tripped_def canAttemptRequest_def getCircuitBreaker_def failureThreshold_def Let_def)

lemma last_failure_now:
  "\<exists>b. circuitBreakers (recordFailure p w) p = Some b \<and> lastFailureTime b = Some (now (recordFailure p w))"
  by (auto simp: recordFailure_def getCircuitBreaker_def set_breaker_def Let_def split: option.splits)

section \<open>Properties of the retry loop\<close>

lemma calc_delays: "map calculateBackoffDelay [0..<maxRetries] = [1000, 2000, 4000]"
  by (simp add: calculateBackoffDelay_def maxRetries_def baseDelayMs_def maxDelayMs_def upt_rec)

lemma calc_mono: "a \<le> b \<Longrightarrow> calculateBackoffDelay a \<le> calculateBackoffDelay b"
  by (simp add: calculateBackoffDelay_def baseDelayMs_def min.coboundedI1)

lemma calc_cap: "calculateBackoffDelay a \<le> maxDelayMs"
  by (simp add: calculateBackoffDelay_def)

lemma canAttempt_frame: "\<exists>cb. snd (canAttemptRequest p w) = w\<lparr>circuitBreakers := cb\<rparr>"
  by (auto simp: canAttemptRequest_def getCircuitBreaker_def set_breaker_def Let_def split: option.splits
      intro: exI [of _ "circuitBreakers w"])

lemma recordFailure_frame: "\<exists>cb. recordFailure p w = w\<lparr>circuitBreakers := cb\<rparr>"
  by (auto simp: recordFailure_def getCircuitBreaker_def set_breaker_def Let_def split: option.splits)

lemma recordSuccess_frame: "\<exists>cb. recordSuccess p w = w\<lparr>circuitBreakers := cb\<rparr>"
  by (auto simp: recordSuccess_def getCircuitBreaker_def set_breaker_def Let_def split: option.splits)

lemma canAttempt_log:
  "canAttemptRequest p w = (ok, w1) \<Longrightarrow> sleeps w1 = sleeps w \<and> calls w1 = calls w \<and> tick w1 = tick w \<and> now w1 = now w"
  using canAttempt_frame [of p w] by auto

lemma recordFailure_log [simp]:
  "sleeps (recordFailure p w) = sleeps w" "calls (recordFailure p w) = calls w"
  "tick (recordFailure p w) = tick w" "now (recordFailure p w) = now w"
  using recordFailure_frame [of p w] by auto

lemma recordSuccess_log [simp]:
  "sleeps (recordSuccess p w) = sleeps w" "calls (recordSuccess p w) = calls w"
  "tick (recordSuccess p w) = tick w" "now (recordSuccess p w) = now w"
  using recordSuccess_frame [of p w] by auto

lemma retry_try_fails:
  assumes "\<forall>k. isl (llm ev p k)"
  shows "\<exists>e w1. retry_try ev p w = (Inl e, w1) \<and> good_error ev p e"
proof (cases "canAttemptRequest p w")
  case (Pair ok w1)
  show ?thesis
  proof (cases ok)
    case False
    with Pair show ?thesis by (simp add: retry_try_def good_error_def)
  next
    case True
    from assms obtain e where e: "llm ev p (tick w1) = Inl e" by (metis sum.collapse(1))
    then show ?thesis using Pair True by (auto simp: retry_try_def call_provider_def good_error_def)
  qed
qed

lemma retry_try_sleeps: "retry_try ev p w = (r, w1) \<Longrightarrow> sleeps w1 = sleeps w"
  by (auto simp: retry_try_def call_provider_def Let_def split: prod.splits sum.splits if_splits
      dest: canAttempt_log)

lemma retry_try_calls:
  "retry_try ev p w = (r, w1) \<Longrightarrow> \<exists>cs. calls w1 = calls w @ cs \<and> length cs \<le> 1 \<and> set cs \<subseteq> {p}"
  by (auto simp: retry_try_def call_provider_def Let_def split: prod.splits sum.splits if_splits
      dest: canAttempt_log)

lemma retry_catch_sleeps:
  "sleeps (retry_catch ev p attempt w) = sleeps w @ (if attempt < maxRetries then [calculateBackoffDelay attempt] else [])"
  by (simp add: retry_catch_def sleep_def Let_def)

lemma retry_catch_calls [simp]: "calls (retry_catch ev p attempt w) = calls w"
  by (simp add: retry_catch_def sleep_def Let_def)

lemma retry_loop_error:
  "\<forall>k. isl (llm ev p k) \<Longrightarrow> attempt \<le> maxRetries \<or> (\<exists>e. le = Some e \<and> good_error ev p e) \<Longrightarrow>
         \<exists>e. fst (retry_loop ev p attempt le w) = Inl e \<and> good_error ev p e"
proof (induction ev p attempt le w rule: retry_loop.induct)
  case (1 ev p attempt le w)
  show ?case
  proof (cases "attempt \<le> maxRetries")
    case False
    with "1.prems" show ?thesis by (subst retry_loop.simps) auto
  next
    case True
    from retry_try_fails [OF "1.prems"(1), of w] obtain e w1
      where t: "retry_try ev p w = (Inl e, w1)" and g: "good_error ev p e"
      by blast
    have "\<exists>e'. fst (retry_loop ev p (attempt + 1) (Some e) (retry_catch ev p attempt w1)) = Inl e' \<and> good_error ev p e'"
      using "1.IH" [OF True t [symmetric] refl "1.prems"(1)] g by blast
    then show ?thesis using True t by (subst retry_loop.simps) simp
  qed
qed

lemma retry_loop_sleeps:
  "\<forall>k. isl (llm ev p k) \<Longrightarrow>
   sleeps (snd (retry_loop ev p attempt le w)) = sleeps w @ map calculateBackoffDelay [attempt..<maxRetries]"
proof (induction ev p attempt le w rule: retry_loop.induct)
  case (1 ev p attempt le w)
  show ?case
  proof (cases "attempt \<le> maxRetries")
    case False
    then show ?thesis by (subst retry_loop.simps) (auto split: option.splits)
  next
    case True
    from retry_try_fails [OF "1.prems"(1), of w] obtain e w1
      where t: "retry_try ev p w = (Inl e, w1)"
      by blast
    have w1: "sleeps w1 = sleeps w" using retry_try_sleeps [OF t] .
    have "sleeps (snd (retry_loop ev p (attempt + 1) (Some e) (retry_catch ev p attempt w1)))
        = sleeps (retry_catch ev p attempt w1) @ map calculateBackoffDelay [attempt + 1..<maxRetries]"
      using "1.IH" [OF True t [symmetric] refl "1.prems"(1)] by blast
    then show ?thesis using True t w1
      by (subst retry_loop.simps) (auto simp: retry_catch_sleeps upt_rec [of attempt])
  qed
qed

lemma retry_loop_calls:
  "\<exists>cs. calls (snd (retry_loop ev p attempt le w)) = calls w @ cs \<and> length cs \<le> Suc maxRetries - attempt \<and> set cs \<subseteq> {p}"
proof (induction ev p attempt le w rule: retry_loop.induct)
  case (1 ev p attempt le w)
  show ?case
  proof (cases "attempt \<le> maxRetries")
    case False
    then show ?thesis by (subst retry_loop.simps) (auto split: option.splits)
  next
    case True
    show ?thesis
    proof (cases "retry_try ev p w")
      case (Pair r w1)
      from retry_try_calls [OF Pair] obtain cs1
        where c1: "calls w1 = calls w @ cs1" "length cs1 \<le> 1" "set cs1 \<subseteq> {p}" by auto
      show ?thesis
      proof (cases r)
        case (Inr res)
        with Pair True c1 show ?thesis by (subst retry_loop.simps) auto
      next
        case (Inl e)
        from "1.IH" [OF True Pair [symmetric] Inl] obtain cs2 where
          c2: "calls (snd (retry_loop ev p (attempt + 1) (Some e) (retry_catch ev p attempt w1))) = calls w1 @ cs2"
            "length cs2 \<le> Suc maxRetries - (attempt + 1)" "set cs2 \<subseteq> {p}"
          by auto
        have "calls (snd (retry_loop ev p attempt le w)) = calls w @ (cs1 @ cs2)"
          using True Pair Inl c1 c2 by (subst retry_loop.simps) simp
        moreover have "length (cs1 @ cs2) \<le> Suc maxRetries - attempt" using c1 c2 True by simp
        moreover have "set (cs1 @ cs2) \<subseteq> {p}" using c1 c2 by auto
        ultimately show ?thesis by blast
      qed
    qed
  qed
qed

lemma retry_from_closed:
  assumes fail: "\<forall>k. llm ev p k = Inl (err k)"
    and fresh: "circuitBreakers w p = None \<or>
                (\<exists>b. circuitBreakers w p = Some b \<and> state b = CLOSED \<and> failures b = 0)"
    and lag: "\<forall>k. lag ev k \<le> 26000"
  shows "fst (retryWithBackoff ev p w) = Inl (circuit_open_message p) \<and>
         calls (snd (retryWithBackoff ev p w)) = calls w @ [p, p, p]"
proof -
  have l: "\<And>k. \<not> 26000 < lag ev k" using lag by (simp add: not_less)
  from fresh show ?thesis
  proof
    assume "circuitBreakers w p = None"
    then show ?thesis
      using fail
      by (simp add: retryWithBackoff_def retry_loop.simps retry_try_def retry_catch_def canAttemptRequest_def
          recordFailure_def getCircuitBreaker_def set_breaker_def new_breaker_def call_provider_def
          sleep_def calculateBackoffDelay_def maxRetries_def baseDelayMs_def maxDelayMs_def
          failureThreshold_def cooldownMs_def Let_def l)
  next
    assume "\<exists>b. circuitBreakers w p = Some b \<and> state b = CLOSED \<and> failures b = 0"
    then show ?thesis
      using fail
      by (auto simp add: retryWithBackoff_def retry_loop.simps retry_try_def retry_catch_def canAttemptRequest_def
          recordFailure_def getCircuitBreaker_def set_breaker_def new_breaker_def call_provider_def
          sleep_def calculateBackoffDelay_def maxRetries_def baseDelayMs_def maxDelayMs_def
          failureThreshold_def cooldownMs_def Let_def l)
  qed
qed

section \<open>Properties of the fallback chain and of the fan-out\<close>

lemma canAttempt_hops: "canAttemptRequest p w = (ok, w1) \<Longrightarrow> hops w1 = hops w"
  using canAttempt_frame [of p w] by auto

lemma recordFailure_hops [simp]: "hops (recordFailure p w) = hops w"
  using recordFailure_frame [of p w] by auto

lemma recordSuccess_hops [simp]: "hops (recordSuccess p w) = hops w"
  using recordSuccess_frame [of p w] by auto

lemma retry_try_hops: "retry_try ev p w = (r, w1) \<Longrightarrow> hops w1 = hops w"
  by (auto simp: retry_try_def call_provider_def Let_def split: prod.splits sum.splits if_splits
      dest: canAttempt_hops)

lemma retry_catch_hops [simp]: "hops (retry_catch ev p attempt w) = hops w"
  by (simp add: retry_catch_def sleep_def Let_def)

lemma retry_loop_hops: "hops (snd (retry_loop ev p attempt le w)) = hops w"
proof (induction ev p attempt le w rule: retry_loop.induct)
  case (1 ev p attempt le w)
  show ?case
  proof (cases "attempt \<le> maxRetries")
    case False
    then show ?thesis by (subst retry_loop.simps) (auto split: option.splits)
  next
    case True
    show ?thesis
    proof (cases "retry_try ev p w")
      case (Pair r w1)
      have h: "hops w1 = hops w" using retry_try_hops [OF Pair] .
      show ?thesis
      proof (cases r)
        case (Inr res)
        with Pair True h show ?thesis by (subst retry_loop.simps) simp
      next
        case (Inl e)
        from "1.IH" [OF True Pair [symmetric] Inl] h
        show ?thesis using True Pair Inl by (subst retry_loop.simps) simp
      qed
    qed
  qed
qed

lemma retryWithBackoff_hops: "retryWithBackoff ev p w = (r, w1) \<Longrightarrow> hops w1 = hops w"
  using retry_loop_hops [of ev p 0 None w] by (simp add: retryWithBackoff_def)

lemma generateLLMResponse_hops:
  assumes "generateLLMResponse ev p w = (r, w1)"
  shows "hops w1 = hops w"
proof (cases "canAttemptRequest p w")
  case (Pair ok v)
  have v: "hops v = hops w" using canAttempt_hops [OF Pair] .
  show ?thesis
  proof (cases ok)
    case True
    with assms Pair have "retryWithBackoff ev p v = (r, w1)" by (simp add: generateLLMResponse_def)
    from retryWithBackoff_hops [OF this] v show ?thesis by simp
  next
    case False
    with assms Pair v show ?thesis by (auto simp: generateLLMResponse_def)
  qed
qed

lemma createMessage_hops: "createMessage ev m w = (r, w1) \<Longrightarrow> hops w1 = hops w"
  by (auto simp: createMessage_def Let_def split: option.splits timestamp.splits)

lemma handle_try_hops:
  assumes "handle_try ev did p s w = (r, w1)"
  shows "hops w1 = hops w"
proof (cases "generateLLMResponse ev p w")
  case (Pair g v)
  have v: "hops v = hops w" using generateLLMResponse_hops [OF Pair] .
  show ?thesis
  proof (cases g)
    case (Inl e)
    with assms Pair v show ?thesis by (auto simp: handle_try_def)
  next
    case (Inr response)
    with assms Pair have "createMessage ev \<lparr>msg_id = [], discussionId = did, content = response,
        sender = s, llmProvider = Some (provider_name p), createdAt = None, suggestionId = None, isAnnouncement = False\<rparr> v = (r, w1)"
      by (simp add: handle_try_def)
    from createMessage_hops [OF this] v show ?thesis by simp
  qed
qed

lemma first_fallback_hops: "first_fallback fs avail w = (r, w1) \<Longrightarrow> hops w1 = hops w"
  by (induction fs avail w rule: first_fallback.induct)
     (auto split: if_splits prod.splits bool.splits dest: canAttempt_hops)

lemma first_fallback_mem: "first_fallback fs avail w = (Some fb, w1) \<Longrightarrow> fb \<in> set avail"
  by (induction fs avail w rule: first_fallback.induct) (auto split: if_splits prod.splits bool.splits)

lemma handle_hops:
  "\<exists>hs. hops (snd (handleLLMResponse ev did provider senderName avail w)) = hops w @ provider # hs \<and>
        distinct hs \<and> set hs \<subseteq> set avail"
proof (induction ev did provider senderName avail w rule: handleLLMResponse.induct)
  case (1 ev did provider senderName avail w)
  let ?w0 = "w\<lparr>hops := hops w @ [provider]\<rparr>"
  obtain r w1 where t: "handle_try ev did provider senderName ?w0 = (r, w1)"
    by (cases "handle_try ev did provider senderName ?w0") auto
  have h1: "hops w1 = hops w @ [provider]" using handle_try_hops [OF t] by simp
  show ?case
  proof (cases r)
    case (Inr saved)
    with t h1 show ?thesis by (subst handleLLMResponse.simps) simp
  next
    case (Inl err)
    obtain fb w2 where g: "getFallbackProvider provider avail w1 = (fb, w2)"
      by (cases "getFallbackProvider provider avail w1") auto
    have h2: "hops w2 = hops w @ [provider]"
      using first_fallback_hops [of _ avail w1 fb w2] g h1 by (simp add: getFallbackProvider_def)
    show ?thesis
    proof (cases fb)
      case None
      obtain r3 w3 where c: "createMessage ev (degradedMessage did provider senderName err) w2 = (r3, w3)"
        by (cases "createMessage ev (degradedMessage did provider senderName err) w2") auto
      from createMessage_hops [OF c] h2 show ?thesis
        using t Inl g None c by (subst handleLLMResponse.simps) simp
    next
      case (Some f)
      have mem: "f \<in> set avail"
        using first_fallback_mem [of _ avail w1 f w2] g Some by (simp add: getFallbackProvider_def)
      let ?rec = "handleLLMResponse ev did f senderName (filter (\<lambda>p. p \<noteq> f) avail) w2"
      from "1.IH" [OF t [symmetric] Inl g [symmetric] Some] obtain hs where
        hs: "hops (snd ?rec) = hops w2 @ f # hs" "distinct hs" "set hs \<subseteq> set (filter (\<lambda>p. p \<noteq> f) avail)"
        by blast
      obtain r3 w3 where rec: "?rec = (r3, w3)" by (cases ?rec) auto
      have h3: "hops w3 = hops w @ provider # f # hs" using hs(1) rec h2 by simp
      have d: "distinct (f # hs)" "set (f # hs) \<subseteq> set avail" using hs mem by auto
      show ?thesis
      proof (cases r3)
        case (Inr fr)
        have "hops (snd (handleLLMResponse ev did provider senderName avail w)) = hops w @ provider # f # hs"
          using t Inl g Some rec Inr h3 by (subst handleLLMResponse.simps) simp
        with d show ?thesis by blast
      next
        case (Inl fe)
        obtain r4 w4 where c: "createMessage ev (degradedMessage did provider senderName err) w3 = (r4, w4)"
          by (cases "createMessage ev (degradedMessage did provider senderName err) w3") auto
        have "hops (snd (handleLLMResponse ev did provider senderName avail w)) = hops w @ provider # f # hs"
          using t \<open>r = Inl err\<close> g Some rec Inl c createMessage_hops [OF c] h3
          by (subst handleLLMResponse.simps) simp
        with d show ?thesis by blast
      qed
    qed
  qed
qed
















lemma fulfilled_Inr [simp]: "fulfilled (map Inr ms) = ms"
  by (induction ms) (simp_all add: fulfilled_def map_filter_def)

section \<open>Properties of cosine similarity and of the semantic memory\<close>

lemma squares_fold: "foldl (\<lambda>sum val. sum + val * val) (s::real) a = s + (\<Sum>x\<leftarrow>a. x * x)"
  by (induction a arbitrary: s) (simp_all add: algebra_simps)

lemma dot_fold_NaN:
  "foldl (\<lambda>sum (val, i). js_add sum (js_mul (Num val) (js_index b i))) NaN xs = NaN"
  by (induction xs) (simp_all add: case_prod_beta)

lemma dot_fold:
  "foldl (\<lambda>sum (val, i). js_add sum (js_mul (Num val) (js_index b i))) (Num s)
     (zip a [k..<k + length a])
   = (if a = [] \<or> k + length a \<le> length b then Num (s + dot a (drop k b)) else NaN)"
proof (induction a arbitrary: s k)
  case Nil
  show ?case by (simp add: dot_def)
next
  case (Cons x xs)
  let ?F = "\<lambda>sum (val, i). js_add sum (js_mul (Num val) (js_index b i))"
  have z: "zip (x # xs) [k..<k + length (x # xs)] = (x, k) # zip xs [Suc k..<Suc k + length xs]"
    by (subst upt_rec) simp
  have step: "foldl ?F (Num s) (zip (x # xs) [k..<k + length (x # xs)])
      = foldl ?F (?F (Num s) (x, k)) (zip xs [Suc k..<Suc k + length xs])"
    by (simp only: z foldl_Cons)
  show ?case
  proof (cases "k < length b")
    case True
    then have d: "drop k b = b ! k # drop (Suc k) b" by (simp add: Cons_nth_drop_Suc)
    have dd: "dot (x # xs) (drop k b) = x * b ! k + dot xs (drop (Suc k) b)"
      by (simp add: d dot_def)
    have c: "(xs = [] \<or> Suc k + length xs \<le> length b) = (k + length (x # xs) \<le> length b)"
      using True by auto
    have f: "?F (Num s) (x, k) = Num (s + x * b ! k)" using True by (simp add: js_index_def)
    have "foldl ?F (Num s) (zip (x # xs) [k..<k + length (x # xs)])
        = (if xs = [] \<or> Suc k + length xs \<le> length b
           then Num (s + x * b ! k + dot xs (drop (Suc k) b)) else NaN)"
      unfolding step f by (rule Cons.IH)
    also have "\<dots> = (if k + length (x # xs) \<le> length b then Num (s + dot (x # xs) (drop k b)) else NaN)"
      unfolding c dd by (simp add: algebra_simps)
    finally show ?thesis by simp
  next
    case False
    then have f: "?F (Num s) (x, k) = NaN" by (simp add: js_index_def)
    have "foldl ?F (Num s) (zip (x # xs) [k..<k + length (x # xs)]) = NaN"
      unfolding step f by (rule dot_fold_NaN)
    with False show ?thesis by simp
  qed
qed

lemma cosineSimilarity_eq:
  "cosineSimilarity a b =
     (if length a \<le> length b then js_div (Num (dot a b)) (Num (vec_norm a * vec_norm b)) else NaN)"
  using dot_fold [of b 0 a 0]
  by (auto simp: cosineSimilarity_def squares_fold vec_norm_def Let_def)

lemma squares_zero: "(\<Sum>x\<leftarrow>a. x * x) = (0::real) \<Longrightarrow> \<forall>x \<in> set a. x = 0"
proof (induction a)
  case Nil
  show ?case by simp
next
  case (Cons y ys)
  have n: "0 \<le> (\<Sum>x\<leftarrow>ys. x * x)" by (rule sum_list_nonneg) auto
  from Cons.prems have "y * y + (\<Sum>x\<leftarrow>ys. x * x) = 0" by simp
  with n have "y * y = 0" "(\<Sum>x\<leftarrow>ys. x * x) = 0"
    by (metis add_nonneg_eq_0_iff zero_le_square)+
  with Cons.IH show ?case by simp
qed

lemma vec_norm_zero: "vec_norm a = 0 \<Longrightarrow> \<forall>x \<in> set a. x = 0"
  by (simp add: vec_norm_def squares_zero)

lemma dot_zero_left: "\<forall>x \<in> set a. x = 0 \<Longrightarrow> dot a b = 0"
  unfolding dot_def by (induction a arbitrary: b) (auto simp: zip_Cons1 split: list.splits)

lemma dot_zero_right: "\<forall>y \<in> set b. y = 0 \<Longrightarrow> dot a b = 0"
  unfolding dot_def by (induction a arbitrary: b) (auto simp: zip_Cons1 split: list.splits)

lemma zip_take_left: "zip a (take (length a) b) = zip a b"
  by (induction a arbitrary: b) (auto simp: zip_Cons1 split: list.splits)

lemma dot_take: "dot a (take (length a) b) = dot a b"
  by (simp add: dot_def zip_take_left)

lemma mset_js_insert: "mset (js_insert cmp x ys) = add_mset x (mset ys)"
  by (induction ys) simp_all

lemma mset_js_sort: "mset (js_sort cmp xs) = mset xs"
  by (induction xs) (simp_all add: js_sort_def mset_js_insert)

lemma set_js_insert: "set (js_insert cmp x ys) = insert x (set ys)"
  by (induction ys) auto

lemma js_ge_total: "x \<noteq> NaN \<Longrightarrow> y \<noteq> NaN \<Longrightarrow> js_ge x y \<or> js_ge y x"
  by (cases x; cases y) auto

lemma js_ge_trans: "js_ge x y \<Longrightarrow> js_ge y z \<Longrightarrow> js_ge x z"
  by (cases x; cases y; cases z) auto

lemma js_ge_not_NaN: "js_ge x y \<Longrightarrow> x \<noteq> NaN \<and> y \<noteq> NaN"
  by (cases x; cases y) auto

lemma desc_not_positive:
  "x \<noteq> NaN \<Longrightarrow> y \<noteq> NaN \<Longrightarrow> (\<not> js_positive (js_sub y x)) = js_ge x y"
  by (cases x; cases y) (auto simp: js_sub_def)

lemma sorted_js_insert:
  assumes "sorted_wrt ge_sim ys" and "similarity x \<noteq> NaN" and "\<forall>y \<in> set ys. similarity y \<noteq> NaN"
  shows "sorted_wrt ge_sim (js_insert by_similarity_desc x ys)"
  using assms
proof (induction ys)
  case Nil
  show ?case by simp
next
  case (Cons y ys)
  show ?case
  proof (cases "js_positive (by_similarity_desc x y)")
    case True
    then have "\<not> ge_sim x y"
      using Cons.prems desc_not_positive [of "similarity x" "similarity y"]
      by (simp add: by_similarity_desc_def ge_sim_def)
    then have yx: "ge_sim y x"
      using Cons.prems js_ge_total [of "similarity x" "similarity y"] by (auto simp: ge_sim_def)
    have "sorted_wrt ge_sim (js_insert by_similarity_desc x ys)"
      using Cons by simp
    moreover have "\<forall>z \<in> set (js_insert by_similarity_desc x ys). ge_sim y z"
      using Cons.prems yx by (auto simp: set_js_insert)
    ultimately show ?thesis using True by simp
  next
    case False
    then have xy: "ge_sim x y"
      using Cons.prems desc_not_positive [of "similarity x" "similarity y"]
      by (simp add: by_similarity_desc_def ge_sim_def)
    have "\<forall>z \<in> set ys. ge_sim x z"
      using Cons.prems xy js_ge_trans unfolding ge_sim_def by fastforce
    with xy Cons.prems False show ?thesis by simp
  qed
qed

lemma sorted_js_sort:
  "\<forall>x \<in> set xs. similarity x \<noteq> NaN \<Longrightarrow> sorted_wrt ge_sim (js_sort by_similarity_desc xs)"
proof (induction xs)
  case Nil
  show ?case by (simp add: js_sort_def)
next
  case (Cons x xs)
  have s: "set (js_sort by_similarity_desc xs) = set xs"
    by (metis mset_js_sort set_mset_mset)
  have "sorted_wrt ge_sim (js_insert by_similarity_desc x (js_sort by_similarity_desc xs))"
    using Cons s by (intro sorted_js_insert) auto
  then show ?case by (simp add: js_sort_def)
qed

lemma embed_request_log:
  "embed_request ev apiKey input w = (r, w1) \<Longrightarrow>
   r = embed ev apiKey input (tick w) \<and> memories w1 = memories w \<and> embedded w1 = embedded w @ [input]"
  by (auto simp: embed_request_def)

lemma findPatterns_found:
  assumes "memories w \<noteq> []" and "embed ev apiKey query (tick w) = Inr qe"
  shows "findPatterns ev query apiKey threshold limit w =
           (Inr (js_slice0 (js_sort by_similarity_desc (qualifying qe threshold w)) limit),
            w\<lparr>tick := tick w + 1, embedded := embedded w @ [query]\<rparr>)"
  using assms
  by (simp add: findPatterns_def findPatterns_try_def embed_request_def qualifying_def Let_def)

lemma findPatterns_empty: "memories w = [] \<Longrightarrow> findPatterns ev query apiKey threshold limit w = (Inr [], w)"
  by (simp add: findPatterns_def findPatterns_try_def)

lemma findPatterns_failed:
  assumes "memories w \<noteq> []" and "embed ev apiKey query (tick w) = Inl err"
  shows "findPatterns ev query apiKey threshold limit w =
           (Inr [], w\<lparr>tick := tick w + 1, embedded := embedded w @ [query]\<rparr>)"
  using assms
  by (simp add: findPatterns_def findPatterns_try_def embed_request_def)

lemma findPatterns_returns: "\<exists>found w'. findPatterns ev query apiKey threshold limit w = (Inr found, w')"
  by (cases "findPatterns_try ev query apiKey threshold limit w")
     (auto simp: findPatterns_def split: sum.splits)

lemma storeMemory_returns:
  "\<exists>w'. storeMemory ev llmId message ctx apiKey w = (Inr (), w') \<and>
        (isl (embed ev apiKey message (tick w)) \<longrightarrow> memories w' = memories w)"
  by (cases "embed ev apiKey message (tick w)")
     (simp_all add: storeMemory_def storeMemory_try_def embed_request_def Let_def)

section \<open>Properties of the companion's monitor\<close>

lemma bind_try_Inr:
  "bind_try m f w = (Inr y, w') \<Longrightarrow> \<exists>x w1. m w = (Inr x, w1) \<and> f x w1 = (Inr y, w')"
  by (auto simp: bind_try_def split: prod.splits sum.splits)






text \<open>
  Inserting the announcement always throws, so the body of \<^verbatim>\<open>if (discussion)\<close> never
  completes: \<open>update_breathing\<close> returns normally only when the discussion was not found.
\<close>

lemma announcement_insert_throws:
  "createMessage ev (createCompanionAnnouncement_breathIncrement did n t) w =
     (Inl ''value.toISOString is not a function'', w)"
  by (simp add: createMessage_def createCompanionAnnouncement_breathIncrement_def)

lemma update_breathing_returns:
  assumes "update_breathing ev did topic similar w = (Inr u, w')"
  shows "db_discussions w' did = None"
proof -
  from assms obtain discussion w1 where
    g: "getDiscussion ev did w = (Inr discussion, w1)"
    and k: "(case discussion of
               None \<Rightarrow> (\<lambda>w. (Inr (), w))
             | Some d \<Rightarrow>
                 (let newBreathCount = (case breathCount d of None \<Rightarrow> 0 | Some n \<Rightarrow> n) + 1;
                      patterns = uniq (concat (map (\<lambda>p. md_patterns (res_metadata p)) similar))
                  in bind_try
                       (updateDiscussion ev did newBreathCount
                          (if length patterns > 0 then patterns else [topic]))
                       (\<lambda>_ w. bind_try
                          (createMessage ev (createCompanionAnnouncement_breathIncrement did newBreathCount (now w)))
                          (\<lambda>_ w. (Inr (), w)) w))) w1 = (Inr u, w')"
    unfolding update_breathing_def by (blast dest: bind_try_Inr)
  from g have d: "discussion = db_discussions w1 did"
    by (auto simp: getDiscussion_def dest!: bind_try_Inr)
  show ?thesis
  proof (cases discussion)
    case None
    with k d show ?thesis by simp
  next
    case (Some d0)
    with k have False
      by (auto simp: Let_def announcement_insert_throws dest!: bind_try_Inr)
    then show ?thesis ..
  qed
qed

lemma findPatterns_frame:
  assumes "findPatterns ev q key t l w = (r, w')"
  shows "db_discussions w' = db_discussions w \<and> db_messages w' = db_messages w \<and>
         db_suggestions w' = db_suggestions w \<and> db_settings w' = db_settings w"
  using assms
  by (auto simp: findPatterns_def findPatterns_try_def embed_request_def Let_def
      split: if_splits sum.splits prod.splits)

lemma concurrent_deletes_none: "db_deleted ev (tick w) = [] \<Longrightarrow> concurrent_deletes ev w = w"
  by (simp add: concurrent_deletes_def)

text \<open>
  The inline detection of the message route increments the breath count under the same
  condition on the matches, without a check of auto-suggest.
\<close>

lemma inline_detection_breath:
  assumes "length (user_messages w did) = 3"
    and "\<forall>k. db_error ev k = None" and "\<forall>k. db_deleted ev k = []"
    and "db_discussions w did = Some d"
    and "int32 (breath_of w did + 1)"
    and "findPatterns ev (join '' '' (map content (user_messages w did))) key (8 / 10) 5
           (w\<lparr>tick := tick w + 1\<rparr>) = (Inr patterns, w3)"
  shows "(2 \<le> length patterns \<longrightarrow>
            breath_of (snd (inline_pattern_detection ev did d key w)) did = breath_of w did + 1) \<and>
         (length patterns < 2 \<longrightarrow>
            breath_of (snd (inline_pattern_detection ev did d key w)) did = breath_of w did)"
proof -
  let ?us = "user_messages w did"
  have g: "getMessagesByDiscussion ev did w = (Inr (discussion_messages w did), w\<lparr>tick := tick w + 1\<rparr>)"
    using assms(2,3) by (simp add: getMessagesByDiscussion_def bind_try_def db_statement_def
        discussion_messages_def concurrent_deletes_none)
  have s3: "slice_last 3 ?us = ?us" using assms(1) by (simp add: slice_last_def)
  have fr: "db_discussions w3 = db_discussions w"
    using findPatterns_frame [OF assms(6)] by simp
  have t: "inline_pattern_detection_try ev did d key w =
      (if length patterns \<ge> 2 then
         (let newBreathCount = (case breathCount d of None \<Rightarrow> 0 | Some n \<Rightarrow> n) + 1;
              detectedPatternTopics = inline_topics patterns
          in bind_try
               (updateDiscussion ev did newBreathCount
                  (if length detectedPatternTopics > 0 then detectedPatternTopics
                   else [''semantic pattern detected'']))
               (\<lambda>updatedDiscussion w.
                  case updatedDiscussion of
                    None \<Rightarrow> (Inl ''Cannot read properties of undefined'', w)
                  | Some d \<Rightarrow> (Inr (), w)))
       else (\<lambda>w. (Inr (), w))) w3"
    using assms(1,6) g s3
    by (simp add: inline_pattern_detection_try_def bind_try_def user_messages_def Let_def)
  have i: "int32 ((case breathCount d of None \<Rightarrow> 0 | Some n \<Rightarrow> n) + 1)"
    using assms(4,5) by (simp add: breath_of_def)
  show ?thesis
  proof (cases "2 \<le> length patterns")
    case True
    with t fr assms(2,3,4) i show ?thesis
      by (simp add: inline_pattern_detection_def bind_try_def updateDiscussion_def db_statement_def
          breath_of_def Let_def concurrent_deletes_none)
  next
    case False
    with t fr show ?thesis
      by (simp add: inline_pattern_detection_def breath_of_def)
  qed
qed

lemmas companion_eval =
  monitorDiscussion_def monitorDiscussion_try_def monitor_configured_def
  semantic_detection_def bind_try_def db_statement_def concurrent_deletes_def int32_def
  getMessagesByDiscussion_def getSettings_def getDiscussion_def updateDiscussion_def
  getCompanionData_def updateCompanionData_def addCompanionSuggestion_def slice_last_def
  detectTopicFromPatterns_def confidence_def make_suggestion_def suggestion_message_def
  update_breathing_def emit_suggestion_def periodic_insight_def createMessage_def
  createCompanionAnnouncement_breathIncrement_def
  findPatterns_def findPatterns_try_def embed_request_def world0_def
  env_embed_def memory_of_def pattern_result_def cosineSimilarity_def js_index_def
  js_sort_def js_slice0_def by_similarity_desc_def js_sub_def Let_def
  companion_world_def user_message_def only_openai_key_def discussion_messages_def breath_of_def

section \<open>Claims about the circuit breaker and the retry loop\<close>

text \<open>
  Claim C7. For every provider \<open>p\<close>, every starting state and every history of breaker
  calls and clock advances that holds at least three \<^verbatim>\<open>recordFailure(p)\<close> and no
  \<^verbatim>\<open>recordSuccess(p)\<close>: the entry of \<open>p\<close> holds the time \<open>T\<close> of the last failure, and
  \<^verbatim>\<open>canAttemptRequest(p)\<close> answers false, changing nothing, as long as no more than the
  cooldown of 30 s has passed since \<open>T\<close>; in particular it answers false directly after a
  failure that ends such a history.
\<close>

theorem breaker_blocks_until_cooldown:
  assumes "Success p \<notin> set tr" and "3 \<le> count_list tr (Failure p)"
  shows "(\<exists>b T. circuitBreakers (cb_run tr w) p = Some b \<and> lastFailureTime b = Some T \<and>
            (now (cb_run tr w) - T \<le> cooldownMs \<longrightarrow>
               canAttemptRequest p (cb_run tr w) = (False, cb_run tr w))) \<and>
         (\<forall>tr'. tr = tr' @ [Failure p] \<longrightarrow>
            canAttemptRequest p (cb_run tr w) = (False, cb_run tr w))"
proof -
  have t: "tripped p (count_list tr (Failure p)) (cb_run tr w)"
    using assms(1) by (rule tripped_run)
  have th: "failureThreshold \<le> count_list tr (Failure p)"
    using assms(2) by (simp add: failureThreshold_def)
  from tripped_blocks [OF t th] obtain b T where
    b: "circuitBreakers (cb_run tr w) p = Some b" "lastFailureTime b = Some T"
       "now (cb_run tr w) - T \<le> cooldownMs \<longrightarrow> canAttemptRequest p (cb_run tr w) = (False, cb_run tr w)"
    by blast
  have "canAttemptRequest p (cb_run tr w) = (False, cb_run tr w)" if "tr = tr' @ [Failure p]" for tr'
  proof -
    have "cb_run tr w = recordFailure p (cb_run tr' w)" using that by (simp add: cb_run_def)
    with last_failure_now [of p "cb_run tr' w"] b have "T = now (cb_run tr w)" by auto
    with b(3) show ?thesis by (simp add: cooldownMs_def)
  qed
  with b show ?thesis by blast
qed

text \<open>The hypotheses of C7 hold for three failures of \<open>openai\<close> on a fresh process.\<close>

theorem breaker_blocks_until_cooldown_witness:
  "Success openai \<notin> set [Failure openai, Elapse 5, Failure openai, Check openai, Failure openai]
   \<and> 3 \<le> count_list [Failure openai, Elapse 5, Failure openai, Check openai, Failure openai] (Failure openai)
   \<and> fst (canAttemptRequest openai
        (cb_run [Failure openai, Elapse 5, Failure openai, Check openai, Failure openai] world0)) = False"
  using breaker_blocks_until_cooldown
    [of openai "[Failure openai, Elapse 5, Failure openai, Check openai, Failure openai]" world0]
  by simp

text \<open>
  Claim C1 asks that an attempt refused by the breaker ends \<^verbatim>\<open>retryWithBackoff\<close> at once and
  is not counted as a failure. The code throws the breaker's error inside the \<^verbatim>\<open>try\<close>
  block, so its own \<^verbatim>\<open>catch\<close> records it and the loop goes on. On a fresh process whose
  provider always fails, the fourth attempt is refused and the failure count is 4 after
  three requests. On a breaker that holds two earlier failures the call is admitted, its
  first request fails and opens the breaker, and the three refused attempts that follow
  are each recorded: one request, sleeps of 1000, 2000 and 4000 ms, 6 failures, and the
  last failure time moved to 7000 ms.
\<close>

theorem retry_counts_blocked_attempt:
  "fst (retryWithBackoff env_down openai world0) = Inl ''Circuit breaker OPEN for openai'' \<and>
   calls (snd (retryWithBackoff env_down openai world0)) = [openai, openai, openai] \<and>
   map_option failures (circuitBreakers (snd (retryWithBackoff env_down openai world0)) openai) = Some 4 \<and>
   fst (canAttemptRequest openai (cb_run [Failure openai, Failure openai] world0)) = True \<and>
   fst (retryWithBackoff env_down openai (cb_run [Failure openai, Failure openai] world0))
     = Inl ''Circuit breaker OPEN for openai'' \<and>
   calls (snd (retryWithBackoff env_down openai
       (cb_run [Failure openai, Failure openai] world0))) = [openai] \<and>
   sleeps (snd (retryWithBackoff env_down openai
       (cb_run [Failure openai, Failure openai] world0))) = [1000, 2000, 4000] \<and>
   map_option failures (circuitBreakers (snd (retryWithBackoff env_down openai
       (cb_run [Failure openai, Failure openai] world0))) openai) = Some 6 \<and>
   map_option lastFailureTime (circuitBreakers (snd (retryWithBackoff env_down openai
       (cb_run [Failure openai, Failure openai] world0))) openai) = Some (Some 7000)"
  by (simp add: retryWithBackoff_def retry_loop.simps retry_try_def retry_catch_def canAttemptRequest_def
      recordFailure_def getCircuitBreaker_def set_breaker_def new_breaker_def call_provider_def
      sleep_def calculateBackoffDelay_def maxRetries_def baseDelayMs_def maxDelayMs_def
      failureThreshold_def cooldownMs_def Let_def world0_def env_down_def circuit_open_message_def
      cb_run_def)

text \<open>
  Claim C2, as stated, fails: on a fresh process an operation that fails at every request
  is requested three times, not four, and the error returned is the breaker's, not the
  operation's.
\<close>

theorem retry_always_failing_counterexample:
  "llm env_down openai 0 = Inl ''boom'' \<and> llm env_down openai 1 = Inl ''boom'' \<and>
   llm env_down openai 2 = Inl ''boom'' \<and> llm env_down openai 3 = Inl ''boom'' \<and>
   length (calls (snd (retryWithBackoff env_down openai world0))) = 3 \<and>
   fst (retryWithBackoff env_down openai world0) \<noteq> Inl ''boom''"
  by (simp add: retryWithBackoff_def retry_loop.simps retry_try_def retry_catch_def canAttemptRequest_def
      recordFailure_def getCircuitBreaker_def set_breaker_def new_breaker_def call_provider_def
      sleep_def calculateBackoffDelay_def maxRetries_def baseDelayMs_def maxDelayMs_def
      failureThreshold_def cooldownMs_def Let_def world0_def env_down_def circuit_open_message_def)

text \<open>
  Claim C2, amended. For an operation that fails at every request, \<^verbatim>\<open>retryWithBackoff\<close>
  returns an error, which is the breaker's refusal or an error of the operation; it
  requests the operation at most \<open>maxRetries + 1 = 4\<close> times; the delays it sleeps are
  non-decreasing and at most \<open>maxDelayMs\<close>. Started on a closed breaker without failures,
  with timers less than 26 s late, it requests the operation exactly three times and
  returns the breaker's refusal.
\<close>

theorem retry_always_failing:
  assumes "\<forall>k. isl (llm ev p k)"
  shows "\<exists>e cs ds.
           fst (retryWithBackoff ev p w) = Inl e \<and>
           (e = circuit_open_message p \<or> (\<exists>k. llm ev p k = Inl e)) \<and>
           calls (snd (retryWithBackoff ev p w)) = calls w @ cs \<and>
           length cs \<le> maxRetries + 1 \<and>
           sleeps (snd (retryWithBackoff ev p w)) = sleeps w @ ds \<and>
           sorted ds \<and> (\<forall>d \<in> set ds. d \<le> maxDelayMs) \<and>
           ((circuitBreakers w p = None \<or>
               (\<exists>b. circuitBreakers w p = Some b \<and> state b = CLOSED \<and> failures b = 0)) \<and>
            (\<forall>k. lag ev k \<le> 26000) \<longrightarrow>
              e = circuit_open_message p \<and> cs = [p, p, p])"
proof -
  let ?r = "retryWithBackoff ev p w"
  from retry_loop_error [OF assms, of 0 None w] obtain e where
    e: "fst ?r = Inl e" "good_error ev p e"
    by (auto simp: retryWithBackoff_def)
  from retry_loop_calls [of ev p 0 None w] obtain cs where
    cs: "calls (snd ?r) = calls w @ cs" "length cs \<le> maxRetries + 1"
    by (auto simp: retryWithBackoff_def)
  have ds: "sleeps (snd ?r) = sleeps w @ [1000, 2000, 4000]"
    using retry_loop_sleeps [OF assms, of 0 None w] by (simp add: retryWithBackoff_def calc_delays)
  have fresh: "e = circuit_open_message p \<and> cs = [p, p, p]"
    if "circuitBreakers w p = None \<or>
        (\<exists>b. circuitBreakers w p = Some b \<and> state b = CLOSED \<and> failures b = 0)"
      and "\<forall>k. lag ev k \<le> 26000"
  proof -
    from assms have "\<forall>k. llm ev p k = Inl (projl (llm ev p k))" by simp
    from retry_from_closed [OF this that] e cs show ?thesis by simp
  qed
  have "sorted [1000, 2000, 4000 :: nat]" "\<forall>d \<in> set [1000, 2000, 4000 :: nat]. d \<le> maxDelayMs"
    by (simp_all add: maxDelayMs_def)
  with e cs ds fresh show ?thesis unfolding good_error_def by blast
qed

text \<open>The hypothesis of the amended C2 holds for the environment in which every request fails.\<close>

theorem retry_always_failing_witness:
  "(\<forall>k. isl (llm env_down grok k)) \<and>
   circuitBreakers world0 grok = None \<and> (\<forall>k. lag env_down k \<le> 26000) \<and>
   fst (retryWithBackoff env_down grok world0) = Inl (circuit_open_message grok) \<and>
   calls (snd (retryWithBackoff env_down grok world0)) = [grok, grok, grok]"
  using retry_always_failing [of env_down grok world0]
  by (auto simp: env_down_def world0_def)

section \<open>Claims about the fallback chain and the fan-out\<close>

text \<open>
  Claim C4, as stated, fails: the provider first asked for is never filtered out of
  \<^verbatim>\<open>availableProviders\<close>. With all four providers available and every request failing
  after 20 s, \<open>openai\<close> fails, \<open>claude\<close> is tried and fails, and by then the cooldown of
  \<open>openai\<close> is over, so \<open>openai\<close> is chosen as the substitute of \<open>claude\<close> and is
  attempted a second time in the same chain: its client receives a fourth request.
\<close>

theorem fallback_chain_counterexample:
  "hops (snd (handleLLMResponse env_slow ''d1'' openai ''gpt4'' [openai, claude, deepseek, grok] world0))
     = [openai, claude, openai, deepseek, grok] \<and>
   calls (snd (handleLLMResponse env_slow ''d1'' openai ''gpt4'' [openai, claude, deepseek, grok] world0))
     = [openai, openai, openai, claude, claude, claude, openai,
        deepseek, deepseek, deepseek, grok, grok, grok]"
  by (simp add: handleLLMResponse.simps handle_try_def generateLLMResponse_def getFallbackProvider_def
      createMessage_def degradedMessage_def mark_fallback_def
      retryWithBackoff_def retry_loop.simps retry_try_def retry_catch_def canAttemptRequest_def
      recordFailure_def getCircuitBreaker_def set_breaker_def new_breaker_def call_provider_def
      sleep_def calculateBackoffDelay_def maxRetries_def baseDelayMs_def maxDelayMs_def
      failureThreshold_def cooldownMs_def Let_def world0_def env_slow_def)

text \<open>
  Claim C4, amended. The providers handed to \<^verbatim>\<open>handleLLMResponse\<close> in one chain are the
  requested provider followed by the substitutes; the substitutes are pairwise distinct
  members of the available list, so there are at most as many fallback hops as available
  providers.
\<close>

theorem fallback_chain_substitutes_distinct:
  "\<exists>hs. hops (snd (handleLLMResponse ev did provider senderName avail w)) = hops w @ provider # hs \<and>
        distinct hs \<and> set hs \<subseteq> set avail \<and> length hs \<le> length avail"
proof -
  from handle_hops [of ev did provider senderName avail w] obtain hs where
    hs: "hops (snd (handleLLMResponse ev did provider senderName avail w)) = hops w @ provider # hs"
      "distinct hs" "set hs \<subseteq> set avail"
    by blast
  have "length hs = card (set hs)" using hs(2) by (simp add: distinct_card)
  also have "\<dots> \<le> card (set avail)" using hs(3) by (simp add: card_mono)
  also have "\<dots> \<le> length avail" by (rule card_length)
  finally have "length hs \<le> length avail" .
  with hs show ?thesis by blast
qed




section \<open>Claims about the semantic memory\<close>

text \<open>
  Claim C5, as stated, fails: \<^verbatim>\<open>cosineSimilarity\<close> never results in an error. A zero
  vector gives \<^verbatim>\<open>NaN\<close>, a shorter second vector gives \<^verbatim>\<open>NaN\<close>, and a longer second
  vector gives a value computed from mismatched dimensions.
\<close>

theorem cosine_counterexample:
  "cosineSimilarity [0, 0] [1, 0] = NaN \<and> cosineSimilarity [1, 0] [1] = NaN \<and>
   cosineSimilarity [4] [4, 3] = Num (4 / 5)"
  by (simp add: cosineSimilarity_def js_index_def)

text \<open>
  Claim C5, amended. For vectors of equal length with non-zero norms the result is
  \<open>dot a b / (\<parallel>a\<parallel> \<parallel>b\<parallel>)\<close>. There is no error: when the second vector is shorter, or when a
  norm is zero and the second vector is not shorter, the result is \<^verbatim>\<open>NaN\<close>; when the second
  vector is longer and the norms are not zero, the dot product is taken over the first
  \<open>length a\<close> components of \<open>b\<close> and divided by the norm of all of \<open>b\<close>.
\<close>

theorem cosine_no_error:
  "(length a = length b \<and> vec_norm a \<noteq> 0 \<and> vec_norm b \<noteq> 0 \<longrightarrow>
      cosineSimilarity a b = Num (dot a b / (vec_norm a * vec_norm b))) \<and>
   (length b < length a \<longrightarrow> cosineSimilarity a b = NaN) \<and>
   (length a \<le> length b \<and> (vec_norm a = 0 \<or> vec_norm b = 0) \<longrightarrow> cosineSimilarity a b = NaN) \<and>
   (length a < length b \<and> vec_norm a \<noteq> 0 \<and> vec_norm b \<noteq> 0 \<longrightarrow>
      cosineSimilarity a b = Num (dot a (take (length a) b) / (vec_norm a * vec_norm b)))"
proof -
  have "dot a b = 0" if "vec_norm a = 0 \<or> vec_norm b = 0"
    using that vec_norm_zero [of a] vec_norm_zero [of b] dot_zero_left [of a b] dot_zero_right [of b a]
    by blast
  then show ?thesis by (auto simp: cosineSimilarity_eq dot_take)
qed

text \<open>The four cases of the amended C5 on concrete vectors.\<close>

theorem cosine_no_error_witness:
  "length [3, 4 :: real] = length [3, 4 :: real] \<and> vec_norm [3, 4] \<noteq> 0 \<and>
   cosineSimilarity [3, 4] [3, 4] = Num 1 \<and>
   length [1 :: real] < length [1, 0 :: real] \<and> cosineSimilarity [1, 0] [1] = NaN \<and>
   vec_norm [0, 0] = 0 \<and> cosineSimilarity [0, 0] [1, 0] = NaN \<and>
   cosineSimilarity [4] [4, 3] = Num (4 / 5)"
  using cosine_no_error [of "[3, 4]" "[3, 4]"] cosine_no_error [of "[1, 0]" "[1]"]
    cosine_no_error [of "[0, 0]" "[1, 0]"] cosine_no_error [of "[4]" "[4, 3]"]
  by (simp add: vec_norm_def dot_def)

text \<open>
  Claim C8, as stated, fails: on an empty memory \<^verbatim>\<open>findPatterns\<close> returns before it embeds
  the query, so the query is embedded zero times; and for a negative limit \<^verbatim>\<open>slice\<close> counts
  from the end, so that limit \<open>-1\<close> on three qualifying records returns two.
\<close>

theorem findPatterns_counterexample:
  "fst (findPatterns env_embed ''q'' ''key'' 0.8 5 world0) = Inr [] \<and>
   embedded (snd (findPatterns env_embed ''q'' ''key'' 0.8 5 world0)) = [] \<and>
   map res_content (projr (fst (findPatterns env_embed ''q'' ''key'' 0 (- 1) world_three)))
     = [''third'', ''second'']"
  by (simp add: findPatterns_def findPatterns_try_def embed_request_def world0_def world_three_def
      env_embed_def memory_of_def pattern_result_def cosineSimilarity_def js_index_def
      js_sort_def js_slice0_def by_similarity_desc_def js_sub_def Let_def)

text \<open>
  Claim C8, amended. On an empty memory \<^verbatim>\<open>findPatterns\<close> returns the empty sequence
  without embedding the query. On a non-empty memory it embeds the query text once; when the
  embedding fails it returns the empty sequence; when it succeeds and the limit is not
  negative, the result is the first \<open>limit\<close> elements of a sequence that holds exactly the
  records with similarity at least the threshold, in descending order of similarity, so it
  has at most \<open>limit\<close> elements and is empty when no stored vector reaches the threshold.
\<close>

theorem findPatterns_query:
  "(memories w = [] \<longrightarrow> findPatterns ev query apiKey threshold limit w = (Inr [], w)) \<and>
   (memories w \<noteq> [] \<and> isl (embed ev apiKey query (tick w)) \<longrightarrow>
      (\<exists>w'. findPatterns ev query apiKey threshold limit w = (Inr [], w') \<and>
            embedded w' = embedded w @ [query])) \<and>
   (memories w \<noteq> [] \<and> embed ev apiKey query (tick w) = Inr qe \<and> 0 \<le> limit \<longrightarrow>
      (\<exists>found w' ranked.
         findPatterns ev query apiKey threshold limit w = (Inr found, w') \<and>
         embedded w' = embedded w @ [query] \<and> memories w' = memories w \<and>
         mset ranked = mset (qualifying qe threshold w) \<and>
         sorted_wrt ge_sim ranked \<and>
         found = take (nat limit) ranked \<and> length found \<le> nat limit \<and>
         ((\<forall>m \<in> set (memories w).
             \<not> js_ge (cosineSimilarity qe (embedding m)) (Num threshold)) \<longrightarrow> found = [])))"
proof (intro conjI impI)
  assume "memories w = []"
  then show "findPatterns ev query apiKey threshold limit w = (Inr [], w)"
    by (rule findPatterns_empty)
next
  assume a: "memories w \<noteq> [] \<and> isl (embed ev apiKey query (tick w))"
  then obtain err where "embed ev apiKey query (tick w) = Inl err"
    by (cases "embed ev apiKey query (tick w)") auto
  with a findPatterns_failed [of w ev apiKey query err threshold limit]
  show "\<exists>w'. findPatterns ev query apiKey threshold limit w = (Inr [], w') \<and>
             embedded w' = embedded w @ [query]"
    by simp
next
  assume a: "memories w \<noteq> [] \<and> embed ev apiKey query (tick w) = Inr qe \<and> 0 \<le> limit"
  let ?q = "qualifying qe threshold w"
  let ?ranked = "js_sort by_similarity_desc ?q"
  let ?found = "take (nat limit) ?ranked"
  let ?w' = "w\<lparr>tick := tick w + 1, embedded := embedded w @ [query]\<rparr>"
  have f: "findPatterns ev query apiKey threshold limit w = (Inr ?found, ?w')"
    using a findPatterns_found [of w ev apiKey query qe threshold limit] by (simp add: js_slice0_def)
  have nn: "\<forall>x \<in> set ?q. similarity x \<noteq> NaN"
    by (auto simp: qualifying_def dest: js_ge_not_NaN)
  have s: "sorted_wrt ge_sim ?ranked" using nn by (rule sorted_js_sort)
  have m: "mset ?ranked = mset ?q" by (rule mset_js_sort)
  have e: "?found = []"
    if "\<forall>m \<in> set (memories w). \<not> js_ge (cosineSimilarity qe (embedding m)) (Num threshold)"
  proof -
    from that have "?q = []" by (auto simp: qualifying_def pattern_result_def filter_empty_conv)
    then show ?thesis by (simp add: js_sort_def)
  qed
  have "embedded ?w' = embedded w @ [query]" "memories ?w' = memories w" "length ?found \<le> nat limit"
    by simp_all
  with f s m e
  show "\<exists>found w' ranked.
         findPatterns ev query apiKey threshold limit w = (Inr found, w') \<and>
         embedded w' = embedded w @ [query] \<and> memories w' = memories w \<and>
         mset ranked = mset (qualifying qe threshold w) \<and>
         sorted_wrt ge_sim ranked \<and>
         found = take (nat limit) ranked \<and> length found \<le> nat limit \<and>
         ((\<forall>m \<in> set (memories w).
             \<not> js_ge (cosineSimilarity qe (embedding m)) (Num threshold)) \<longrightarrow> found = [])"
    by blast
qed

text \<open>
  The three cases of the amended C8 on concrete inputs: three stored memories of which two
  reach the threshold, the empty memory, and a failing embedding endpoint.
\<close>

theorem findPatterns_query_witness:
  "memories world_three \<noteq> [] \<and> embed env_embed ''key'' ''q'' (tick world_three) = Inr [1, 0] \<and>
   (0::int) \<le> 5 \<and>
   embedded (snd (findPatterns env_embed ''q'' ''key'' 0.8 5 world_three)) = [''q''] \<and>
   map res_content (projr (fst (findPatterns env_embed ''q'' ''key'' 0.8 5 world_three)))
     = [''third'', ''second''] \<and>
   memories world0 = [] \<and> findPatterns env_embed ''q'' ''key'' 0.8 5 world0 = (Inr [], world0) \<and>
   isl (embed env_down ''key'' ''q'' (tick world_three)) \<and>
   fst (findPatterns env_down ''q'' ''key'' 0.8 5 world_three) = Inr []"
  using findPatterns_query [of world_three env_embed "''q''" "''key''" "0.8" 5 "[1, 0]"]
    findPatterns_query [of world0 env_embed "''q''" "''key''" "0.8" 5 "[1, 0]"]
    findPatterns_query [of world_three env_down "''q''" "''key''" "0.8" 5 "[1, 0]"]
  by (simp add: findPatterns_def findPatterns_try_def embed_request_def world0_def world_three_def
      env_embed_def env_down_def memory_of_def pattern_result_def cosineSimilarity_def js_index_def
      js_sort_def js_slice0_def by_similarity_desc_def js_sub_def Let_def)

text \<open>
  Claim C10. \<^verbatim>\<open>storeMemory\<close> returns normally for every input, and leaves the memory list
  unchanged when the embedding fails; \<^verbatim>\<open>findPatterns\<close> returns a list for every input, the
  empty list when the embedding fails, which is also what it returns when the embedding
  succeeds and no record reaches the threshold.
\<close>

theorem memory_operations_never_raise:
  "(\<exists>w'. storeMemory ev llmId message ctx apiKey w = (Inr (), w') \<and>
          (isl (embed ev apiKey message (tick w)) \<longrightarrow> memories w' = memories w)) \<and>
   (\<exists>found w'. findPatterns ev query apiKey threshold limit w = (Inr found, w') \<and>
          (isl (embed ev apiKey query (tick w)) \<longrightarrow> found = []) \<and>
          (\<forall>qe. embed ev apiKey query (tick w) = Inr qe \<and> qualifying qe threshold w = [] \<longrightarrow>
             found = []))"
proof
  show "\<exists>w'. storeMemory ev llmId message ctx apiKey w = (Inr (), w') \<and>
          (isl (embed ev apiKey message (tick w)) \<longrightarrow> memories w' = memories w)"
    by (rule storeMemory_returns)
next
  show "\<exists>found w'. findPatterns ev query apiKey threshold limit w = (Inr found, w') \<and>
          (isl (embed ev apiKey query (tick w)) \<longrightarrow> found = []) \<and>
          (\<forall>qe. embed ev apiKey query (tick w) = Inr qe \<and> qualifying qe threshold w = [] \<longrightarrow>
             found = [])"
  proof (cases "memories w = []")
    case True
    from findPatterns_empty [OF True, of ev query apiKey threshold limit] show ?thesis by simp
  next
    case False
    show ?thesis
    proof (cases "embed ev apiKey query (tick w)")
      case (Inl err)
      from findPatterns_failed [OF False Inl, of threshold limit] Inl show ?thesis by simp
    next
      case (Inr qe)
      from findPatterns_found [OF False Inr, of threshold limit] Inr show ?thesis
        by (simp add: js_sort_def js_slice0_def)
    qed
  qed
qed

text \<open>The failing cases of C10 on three stored memories and a failing embedding endpoint.\<close>

theorem memory_operations_never_raise_witness:
  "isl (embed env_down ''key'' ''hello'' (tick world_three)) \<and>
   fst (storeMemory env_down ''gpt4'' ''hello''
         \<lparr>ctx_currentPhase = plasma, ctx_breathNumber = 1, ctx_detectedPatterns = []\<rparr>
         ''key'' world_three) = Inr () \<and>
   length (memories (snd (storeMemory env_down ''gpt4'' ''hello''
         \<lparr>ctx_currentPhase = plasma, ctx_breathNumber = 1, ctx_detectedPatterns = []\<rparr>
         ''key'' world_three))) = 3 \<and>
   fst (findPatterns env_down ''hello'' ''key'' 0.8 5 world_three) = Inr []"
  using memory_operations_never_raise [of env_down "''gpt4''" "''hello''"
      "\<lparr>ctx_currentPhase = plasma, ctx_breathNumber = 1, ctx_detectedPatterns = []\<rparr>"
      "''key''" world_three "''hello''" "0.8" 5]
  by (auto simp: env_down_def world_three_def world0_def)

section \<open>Claims about the companion's monitor\<close>




text \<open>
  Claim C9 against the code. The discussion \<open>d1\<close> has exactly three messages and breath
  count 4, the companion is enabled with auto-suggest on and an OpenAI key, and the query
  of the monitor returns exactly two matches. The monitor stores breath count 5 and then
  inserts the announcement, whose \<^verbatim>\<open>createdAt\<close> is a string: the insert throws, the
  \<^verbatim>\<open>catch\<close> block returns \<^verbatim>\<open>null\<close>, and no suggestion is returned or stored. With one
  match instead of two, nothing is returned and the breath count stays at 4.
\<close>

theorem observe_two_matches_returns_null:
  "length (discussion_messages (companion_world True two_matches) ''d1'') = 3 \<and>
   length (projr (fst (findPatterns env_embed
       (join '' '' (map content (discussion_messages (companion_world True two_matches) ''d1'')))
       ''sk-1'' (8 / 10) 5 ((companion_world True two_matches)\<lparr>tick := 2\<rparr>)))) = 2 \<and>
   breath_of (companion_world True two_matches) ''d1'' = 4 \<and>
   fst (monitorDiscussion env_embed ''d1'' (companion_world True two_matches)) = Inr None \<and>
   breath_of (snd (monitorDiscussion env_embed ''d1'' (companion_world True two_matches))) ''d1'' = 5 \<and>
   db_suggestions (snd (monitorDiscussion env_embed ''d1'' (companion_world True two_matches))) = None \<and>
   db_messages (snd (monitorDiscussion env_embed ''d1'' (companion_world True two_matches)))
     = db_messages (companion_world True two_matches) \<and>
   fst (monitorDiscussion_try env_embed ''d1'' (companion_world True two_matches))
     = Inl ''value.toISOString is not a function'' \<and>
   fst (monitorDiscussion env_embed ''d1'' (companion_world True one_match)) = Inr None \<and>
   breath_of (snd (monitorDiscussion env_embed ''d1'' (companion_world True one_match))) ''d1'' = 4"
  by (simp add: companion_eval two_matches_def one_match_def)

end
